theory Spec2Isabelle
  imports Main "HOL-Library.Sublist"
begin

section \<open>Python string and list primitives used by pdf\_extractor.py\<close>

text \<open>
  Python strings are modelled as \<open>string\<close> (lists of 8-bit characters, read as the
  code points 0..255). Python integers are \<open>int\<close>; list positions produced by
  \<open>enumerate\<close> are natural numbers.
\<close>

datatype py_error =
    IndexError
  | UnboundLocalError
  | ValueError
  | AttributeError
  | FileNotFoundError string
  | GenericException string

text \<open>
  \<open>str.isspace\<close> on one character, restricted to code points below 256: the
  characters 0x09-0x0D, 0x1C-0x1F, 0x20, 0x85 and 0xA0. The same predicate decides
  \<open>str.split()\<close>, \<open>str.strip()\<close> and the regular-expression classes
  \<open>\s\<close> / \<open>\S\<close> on \<open>str\<close> patterns.
\<close>

definition py_isspace :: "char \<Rightarrow> bool" where
  "py_isspace c =
     (let n = (of_char c :: nat)
      in (9 \<le> n \<and> n \<le> 13) \<or> (28 \<le> n \<and> n \<le> 32) \<or> n = 133 \<or> n = 160)"

text \<open>Python slicing \<open>xs[lo:hi]\<close> with step 1; \<open>None\<close> is an omitted bound.\<close>

definition slice_bound :: "nat \<Rightarrow> int \<Rightarrow> nat" where
  "slice_bound n i = (if i < 0 then nat (int n + i) else min n (nat i))"

definition py_slice :: "'a list \<Rightarrow> int option \<Rightarrow> int option \<Rightarrow> 'a list" where
  "py_slice xs lo hi =
     (let n = length xs;
          l = (case lo of None \<Rightarrow> 0 | Some i \<Rightarrow> slice_bound n i);
          h = (case hi of None \<Rightarrow> n | Some i \<Rightarrow> slice_bound n i)
      in take (h - l) (drop l xs))"

text \<open>Python indexing \<open>xs[i]\<close>: negative positions count from the end; out of range raises.\<close>

definition py_index :: "'a list \<Rightarrow> int \<Rightarrow> py_error + 'a" where
  "py_index xs i =
     (if 0 \<le> i \<and> i < int (length xs) then Inr (xs ! nat i)
      else if i < 0 \<and> - int (length xs) \<le> i then Inr (xs ! nat (int (length xs) + i))
      else Inl IndexError)"

text \<open>\<open>sub in s\<close> on strings: \<open>sub\<close> occurs as a contiguous substring of \<open>s\<close>.\<close>

fun str_in :: "string \<Rightarrow> string \<Rightarrow> bool" where
  "str_in sub [] = (sub = [])"
| "str_in sub (c # cs) = (prefix sub (c # cs) \<or> str_in sub cs)"

text \<open>
  \<open>s.split(sep)\<close> for a non-empty separator: cut at the leftmost occurrences,
  scanning left to right, keeping empty pieces. (Python raises \<open>ValueError\<close> for an empty
  separator; every call in the program passes a non-empty literal.)
\<close>

function split_sep :: "string \<Rightarrow> string \<Rightarrow> string list" where
  "split_sep sep [] = [[]]"
| "split_sep sep (c # cs) =
     (if sep \<noteq> [] \<and> prefix sep (c # cs)
      then [] # split_sep sep (drop (length sep) (c # cs))
      else (case split_sep sep cs of
              [] \<Rightarrow> [[c]]
            | w # ws \<Rightarrow> (c # w) # ws))"
  by pat_completeness auto
termination
  by (relation "measure (\<lambda>(sep, s). length s)") (auto simp: neq_Nil_conv)

text \<open>\<open>s.split()\<close>: split on runs of whitespace, dropping empty pieces.\<close>

fun split_ws_aux :: "string \<Rightarrow> string \<Rightarrow> string list" where
  "split_ws_aux cur [] = (if cur = [] then [] else [cur])"
| "split_ws_aux cur (c # cs) =
     (if py_isspace c
      then (if cur = [] then split_ws_aux [] cs else cur # split_ws_aux [] cs)
      else split_ws_aux (cur @ [c]) cs)"

definition split_ws :: "string \<Rightarrow> string list" where
  "split_ws s = split_ws_aux [] s"

text \<open>\<open>sep.join(xs)\<close>.\<close>

fun join :: "string \<Rightarrow> string list \<Rightarrow> string" where
  "join sep [] = []"
| "join sep [x] = x"
| "join sep (x # y # ys) = x @ sep @ join sep (y # ys)"

text \<open>\<open>s.strip()\<close> and \<open>s.lstrip(' ')\<close>.\<close>

definition strip :: "string \<Rightarrow> string" where
  "strip s = rev (dropWhile py_isspace (rev (dropWhile py_isspace s)))"

definition lstrip_space :: "string \<Rightarrow> string" where
  "lstrip_space s = dropWhile (\<lambda>c. c = CHR '' '') s"

text \<open>
  \<open>re.match(r"\S+ \(", line)\<close>: anchored at the start of the line, one or more
  non-whitespace characters, a space, an opening parenthesis. The greedy run of
  \<open>\S\<close> must stop exactly before the space (a shorter run would need a space
  inside the run), so the longest run decides.
\<close>

definition re_match_pattern :: "string \<Rightarrow> bool" where
  "re_match_pattern line =
     (let tok = takeWhile (\<lambda>c. \<not> py_isspace c) line;
          rest = dropWhile (\<lambda>c. \<not> py_isspace c) line
      in tok \<noteq> [] \<and> take 2 rest = '' ('')"


section \<open>The extractor object\<close>

text \<open>
  The fields of \<open>ANSIStandardsExtractor\<close>. Methods that mutate \<open>self\<close> take the
  record and return the updated one; a raised exception is \<open>Inl\<close>. Python names
  starting with an underscore lose it (\<open>_extract_names\<close> is \<open>extract_names\<close>).
\<close>

record extractor =
  pdf_path :: string
  output_path :: string
  operating_name :: "string list"
  legal_name :: "string list"
  website :: "string list"
  document_name :: "string list"
  standard_title :: "string list"
  publishing_date :: "string list"

text \<open>\<open>__init__\<close>: the six data containers start empty (the directory creation is not modelled).\<close>

definition init_extractor :: "string \<Rightarrow> string \<Rightarrow> extractor" where
  "init_extractor p out =
     \<lparr>pdf_path = p, output_path = out, operating_name = [], legal_name = [], website = [],
      document_name = [], standard_title = [], publishing_date = []\<rparr>"

subsection \<open>Publishing date (the loop over the pipe-fields of the last line)\<close>

fun publishing_date_loop :: "extractor \<Rightarrow> string list \<Rightarrow> py_error + extractor" where
  "publishing_date_loop st [] = Inr st"
| "publishing_date_loop st (k # ks) =
     (if str_in ''Final Action Date'' k
      then (case py_index (split_sep ''Final Action Date: '' k) 1 of
              Inl e \<Rightarrow> Inl e
            | Inr d \<Rightarrow>
                publishing_date_loop
                  (st\<lparr>publishing_date := publishing_date st @ [strip d]\<rparr>) ks)
      else publishing_date_loop st ks)"

definition extract_publishing_date :: "extractor \<Rightarrow> string list \<Rightarrow> py_error + extractor" where
  "extract_publishing_date st sub_list =
     (case py_index sub_list (- 1) of
        Inl e \<Rightarrow> Inl e
      | Inr l \<Rightarrow> publishing_date_loop st (split_sep ''|'' l))"

subsection \<open>Operating and legal names\<close>

definition legal_of_line :: "string \<Rightarrow> string" where
  "legal_of_line line =
     (let joined = join '', '' (py_slice (split_ws line) (Some 1) None)
      in if str_in ''The data in this document is reported'' line
         then py_slice joined None (Some (- 106))
         else joined)"

fun extract_names :: "extractor \<Rightarrow> string list \<Rightarrow> py_error + extractor" where
  "extract_names st [] = Inr st"
| "extract_names st (line # rest) =
     (if re_match_pattern line
      then (case py_index (split_ws line) 0 of
              Inl e \<Rightarrow> Inl e
            | Inr opn \<Rightarrow>
                extract_names
                  (st\<lparr>operating_name := operating_name st @ [opn],
                      legal_name := legal_name st @ [legal_of_line line]\<rparr>) rest)
      else extract_names st rest)"

subsection \<open>Website\<close>

fun extract_website :: "extractor \<Rightarrow> string list \<Rightarrow> py_error + extractor" where
  "extract_website st [] = Inr st"
| "extract_website st (line # rest) =
     (if str_in ''w: '' line
      then (case py_index (split_sep ''|'' line) 1 of
              Inl e \<Rightarrow> Inl e
            | Inr f \<Rightarrow>
                (case py_index (split_sep ''w: '' f) 1 of
                   Inl e \<Rightarrow> Inl e
                 | Inr v \<Rightarrow> extract_website (st\<lparr>website := website st @ [strip v]\<rparr>) rest))
      else extract_website st rest)"

subsection \<open>Document name and standard title\<close>

definition doc_line :: "string \<Rightarrow> bool" where
  "doc_line line = ((prefix ''ANSI'' line \<or> prefix ''INCITS'' line) \<and> str_in '','' line)"

text \<open>
  The \<open>for ... break\<close> loop: the position of the first qualifying line. When no line
  qualifies the local variable \<open>index\<close> is never bound.
\<close>

fun find_doc_index :: "nat \<Rightarrow> string list \<Rightarrow> nat option" where
  "find_doc_index idx [] = None"
| "find_doc_index idx (line # rest) =
     (if doc_line line then Some idx else find_doc_index (Suc idx) rest)"

definition extract_document_info :: "extractor \<Rightarrow> string list \<Rightarrow> py_error + extractor" where
  "extract_document_info st sub_list =
     (case find_doc_index 0 sub_list of
        None \<Rightarrow> Inl UnboundLocalError
      | Some index \<Rightarrow>
          (let pieces = split_sep '','' (join '' '' (py_slice sub_list (Some (int index)) (Some (- 1))))
           in case py_index pieces 0 of
                Inl e \<Rightarrow> Inl e
              | Inr doc \<Rightarrow>
                  Inr (st\<lparr>document_name := document_name st @ [doc],
                          standard_title := standard_title st @
                            [lstrip_space (join '' '' (py_slice pieces (Some 1) None))]\<rparr>)))"

subsection \<open>Reconciliation\<close>

definition pad_names :: "extractor \<Rightarrow> py_error + extractor" where
  "pad_names st =
     (if length (operating_name st) < length (standard_title st)
      then (case py_index (operating_name st) (- 1) of
              Inl e \<Rightarrow> Inl e
            | Inr opn \<Rightarrow>
                (case py_index (legal_name st) (- 1) of
                   Inl e \<Rightarrow> Inl e
                 | Inr lg \<Rightarrow>
                     Inr (st\<lparr>operating_name := operating_name st @ [opn],
                             legal_name := legal_name st @ [lg]\<rparr>)))
      else Inr st)"

definition pad_website :: "extractor \<Rightarrow> py_error + extractor" where
  "pad_website st =
     (if length (website st) < length (standard_title st)
      then (case py_index (website st) (- 1) of
              Inl e \<Rightarrow> Inl e
            | Inr w \<Rightarrow> Inr (st\<lparr>website := website st @ [w]\<rparr>))
      else Inr st)"

definition ensure_data_consistency :: "extractor \<Rightarrow> py_error + extractor" where
  "ensure_data_consistency st =
     (case pad_names st of Inl e \<Rightarrow> Inl e | Inr st1 \<Rightarrow> pad_website st1)"

subsection \<open>One segment, one page, all pages\<close>

definition process_segment :: "extractor \<Rightarrow> string list \<Rightarrow> py_error + extractor" where
  "process_segment st sub_list =
     (case extract_publishing_date st sub_list of
        Inl e \<Rightarrow> Inl e
      | Inr st1 \<Rightarrow>
     (case extract_names st1 sub_list of
        Inl e \<Rightarrow> Inl e
      | Inr st2 \<Rightarrow>
     (case extract_website st2 sub_list of
        Inl e \<Rightarrow> Inl e
      | Inr st3 \<Rightarrow>
     (case extract_document_info st3 sub_list of
        Inl e \<Rightarrow> Inl e
      | Inr st4 \<Rightarrow> ensure_data_consistency st4))))"

definition page_lines :: "nat \<Rightarrow> string \<Rightarrow> string list" where
  "page_lines i page_text =
     (if i = 0 then py_slice (split_sep [CHR 0x0A] page_text) (Some 11) (Some (- 2))
      else py_slice (split_sep [CHR 0x0A] page_text) None (Some (- 2)))"

definition final_action_indices :: "string list \<Rightarrow> nat list" where
  "final_action_indices page =
     map fst (filter (\<lambda>(idx, s). str_in ''Final Action Date'' s) (enumerate 0 page))"

text \<open>The loop \<open>for idx in final_action_indices\<close>, with its variable \<open>start\<close>.\<close>

fun process_sections :: "extractor \<Rightarrow> string list \<Rightarrow> int \<Rightarrow> nat list \<Rightarrow> py_error + extractor" where
  "process_sections st page start [] = Inr st"
| "process_sections st page start (idx # idxs) =
     (case process_segment st (py_slice page (Some (start + 1)) (Some (int idx + 1))) of
        Inl e \<Rightarrow> Inl e
      | Inr st' \<Rightarrow> process_sections st' page (int idx) idxs)"

definition check_website :: "extractor \<Rightarrow> string list \<Rightarrow> extractor" where
  "check_website st page =
     (if filter (str_in ''w: '') page = [] then st\<lparr>website := website st @ [''Nil'']\<rparr> else st)"

definition parse_page :: "extractor \<Rightarrow> nat \<Rightarrow> string \<Rightarrow> py_error + extractor" where
  "parse_page st i page_text =
     (let page = page_lines i page_text
      in process_sections (check_website st page) page (- 1) (final_action_indices page))"

fun parse_pages :: "extractor \<Rightarrow> nat \<Rightarrow> string list \<Rightarrow> py_error + extractor" where
  "parse_pages st i [] = Inr st"
| "parse_pages st i (page_text # rest) =
     (case parse_page st i page_text of
        Inl e \<Rightarrow> Inl e
      | Inr st' \<Rightarrow> parse_pages st' (Suc i) rest)"

definition parse_text_data :: "extractor \<Rightarrow> string list \<Rightarrow> py_error + extractor" where
  "parse_text_data st text = parse_pages st 0 text"


subsection \<open>Reading the document\<close>

text \<open>
  The outside world of \<open>extract_pdf_text\<close>: the file system seen by \<open>open\<close>, and
  the PDF library. An exception raised inside the \<open>try\<close> block is either a
  \<open>FileNotFoundError\<close> or another \<open>Exception\<close>, carried with its \<open>str(e)\<close>.
\<close>

datatype raised = RaisedFileNotFound string | RaisedOther string

datatype 'f file_state = Absent | Unreadable string | Readable 'f

record ('f, 'p) world =
  files :: "string \<Rightarrow> 'f file_state"
  pdf_reader :: "'f \<Rightarrow> raised + 'p list"
  page_extract_text :: "'p \<Rightarrow> raised + string"
  path_join :: "string \<Rightarrow> string \<Rightarrow> string"
  to_excel :: "string \<Rightarrow> raised option"

text \<open>\<open>open(path, 'rb')\<close>: a path that does not exist raises \<open>FileNotFoundError\<close>.\<close>

definition py_open :: "('f, 'p) world \<Rightarrow> string \<Rightarrow> raised + 'f" where
  "py_open w path =
     (case files w path of
        Absent \<Rightarrow> Inl (RaisedFileNotFound path)
      | Unreadable m \<Rightarrow> Inl (RaisedOther m)
      | Readable f \<Rightarrow> Inr f)"

text \<open>The loop \<open>for page_num in range(num_pages)\<close>, appending each page's text.\<close>

fun extract_pages :: "('f, 'p) world \<Rightarrow> string list \<Rightarrow> 'p list \<Rightarrow> raised + string list" where
  "extract_pages w text [] = Inr text"
| "extract_pages w text (page_obj # rest) =
     (case page_extract_text w page_obj of
        Inl r \<Rightarrow> Inl r
      | Inr page_text \<Rightarrow> extract_pages w (text @ [page_text]) rest)"

definition extract_pdf_text_body :: "('f, 'p) world \<Rightarrow> string \<Rightarrow> raised + string list" where
  "extract_pdf_text_body w path =
     (case py_open w path of
        Inl r \<Rightarrow> Inl r
      | Inr pdf_file \<Rightarrow>
          (case pdf_reader w pdf_file of
             Inl r \<Rightarrow> Inl r
           | Inr pages \<Rightarrow> extract_pages w [] pages))"

definition extract_pdf_text :: "('f, 'p) world \<Rightarrow> extractor \<Rightarrow> py_error + string list" where
  "extract_pdf_text w st =
     (case extract_pdf_text_body w (pdf_path st) of
        Inl (RaisedFileNotFound m) \<Rightarrow> Inl (FileNotFoundError (''PDF file not found: '' @ pdf_path st))
      | Inl (RaisedOther m) \<Rightarrow> Inl (GenericException (''Error reading PDF: '' @ m))
      | Inr text \<Rightarrow> Inr text)"

subsection \<open>The table\<close>

record dataframe =
  col_operating_name :: "string list"
  col_legal_name :: "string list"
  col_website :: "string list"
  col_document_name :: "string list"
  col_standard_title :: "string list"
  col_publishing_date :: "string list"
  col_american_standard :: "string list"

text \<open>\<open>Series.str.replace('[()]', '', regex=True)\<close> on one value.\<close>

definition strip_parens :: "string \<Rightarrow> string" where
  "strip_parens s = filter (\<lambda>c. c \<noteq> CHR ''('' \<and> c \<noteq> CHR '')'') s"

text \<open>
  \<open>pd.DataFrame(dict)\<close> raises \<open>ValueError\<close> when the columns differ in length. With
  six empty lists the table is built, but its columns are not string columns, and the
  \<open>.str\<close> accessor of the Legal Name cleanup raises \<open>AttributeError\<close>.
\<close>

definition create_dataframe :: "extractor \<Rightarrow> py_error + dataframe" where
  "create_dataframe st =
     (let n = length (operating_name st)
      in if length (legal_name st) = n \<and> length (website st) = n \<and>
            length (document_name st) = n \<and> length (standard_title st) = n \<and>
            length (publishing_date st) = n
         then (if n = 0 then Inl AttributeError
               else Inr \<lparr>col_operating_name = operating_name st,
                         col_legal_name = map strip_parens (legal_name st),
                         col_website = website st,
                         col_document_name = document_name st,
                         col_standard_title = standard_title st,
                         col_publishing_date = publishing_date st,
                         col_american_standard = replicate n ''American''\<rparr>)
         else Inl ValueError)"

subsection \<open>The pipeline\<close>

text \<open>
  \<open>process\<close> returns its result together with the file written, if any:
  \<open>Some (output_file, df)\<close> once \<open>df.to_excel(output_file)\<close> has run.
\<close>

definition process ::
  "('f, 'p) world \<Rightarrow> extractor \<Rightarrow> string \<Rightarrow>
     (py_error + dataframe \<times> string) \<times> (string \<times> dataframe) option" where
  "process w st output_filename =
     (case extract_pdf_text w st of
        Inl e \<Rightarrow> (Inl e, None)
      | Inr text \<Rightarrow>
     (case parse_text_data st text of
        Inl e \<Rightarrow> (Inl e, None)
      | Inr st' \<Rightarrow>
     (case create_dataframe st' of
        Inl e \<Rightarrow> (Inl e, None)
      | Inr df \<Rightarrow>
          (let output_file = path_join w (output_path st') output_filename
           in case to_excel w output_file of
                Some (RaisedFileNotFound m) \<Rightarrow> (Inl (FileNotFoundError m), None)
              | Some (RaisedOther m) \<Rightarrow> (Inl (GenericException m), None)
              | None \<Rightarrow> (Inr (df, output_file), Some (output_file, df))))))"


subsection \<open>The segments of a page, as the section loop cuts them\<close>

text \<open>
  The successive values of \<open>sub_list\<close> in the loop of \<open>process_sections\<close>, and the
  field extraction run over a list of segments in order.
\<close>

fun sections :: "string list \<Rightarrow> int \<Rightarrow> nat list \<Rightarrow> string list list" where
  "sections page start [] = []"
| "sections page start (idx # idxs) =
     py_slice page (Some (start + 1)) (Some (int idx + 1)) # sections page (int idx) idxs"

fun process_segments :: "extractor \<Rightarrow> string list list \<Rightarrow> py_error + extractor" where
  "process_segments st [] = Inr st"
| "process_segments st (sub_list # rest) =
     (case process_segment st sub_list of
        Inl e \<Rightarrow> Inl e
      | Inr st' \<Rightarrow> process_segments st' rest)"


subsection \<open>Example inputs\<close>

text \<open>
  Two page texts used to exercise the theorems below: a later page with two records (the
  second without a name or website line), and a first page (eleven header lines) whose
  only record has no line starting with \<open>"ANSI"\<close> or \<open>"INCITS"\<close>.
\<close>

definition example_page :: string where
  "example_page =
     ''ACME (Acme Corp)'' @ [CHR 0x0A] @
     ''a | w: www.acme.org'' @ [CHR 0x0A] @
     ''ANSI X1-2020, Title one'' @ [CHR 0x0A] @
     ''x | Final Action Date: 1/1/2020'' @ [CHR 0x0A] @
     ''ANSI X2-2021, Title two'' @ [CHR 0x0A] @
     ''y | Final Action Date: 2/2/2021'' @ [CHR 0x0A] @
     ''footer 1'' @ [CHR 0x0A] @ ''footer 2''"

definition example_first_page :: string where
  "example_first_page =
     concat (replicate 11 (''header'' @ [CHR 0x0A])) @
     ''ACME (Acme Corp)'' @ [CHR 0x0A] @
     ''a | w: www.acme.org'' @ [CHR 0x0A] @
     ''A title without the prefix'' @ [CHR 0x0A] @
     ''x | Final Action Date: 1/1/2020'' @ [CHR 0x0A] @
     ''footer 1'' @ [CHR 0x0A] @ ''footer 2''"


text \<open>
  A small outside world: one readable two-page document, one document whose second page
  cannot be extracted, one file that cannot be opened, and no other file.
\<close>

definition example_world :: "(string list, string) world" where
  "example_world =
     \<lparr>files = (\<lambda>p. if p = ''in.pdf'' then Readable [''page one'', ''page two'']
                    else if p = ''broken.pdf'' then Readable [''page one'', ''bad'', ''page three'']
                    else if p = ''locked.pdf'' then Unreadable ''Permission denied''
                    else Absent),
      pdf_reader = (\<lambda>f. Inr f),
      page_extract_text = (\<lambda>p. if p = ''bad'' then Inl (RaisedOther ''cannot decode'') else Inr p),
      path_join = (\<lambda>a b. a @ ''/'' @ b),
      to_excel = (\<lambda>p. None)\<rparr>"


text \<open>A first page whose only record has two lines matching the name pattern.\<close>

definition example_two_names_page :: string where
  "example_two_names_page =
     concat (replicate 11 (''header'' @ [CHR 0x0A])) @
     ''ACME (Acme Corp)'' @ [CHR 0x0A] @
     ''BETA (Beta Corp)'' @ [CHR 0x0A] @
     ''a | w: www.acme.org'' @ [CHR 0x0A] @
     ''ANSI X1-2020, Title one'' @ [CHR 0x0A] @
     ''x | Final Action Date: 1/1/2020'' @ [CHR 0x0A] @
     ''footer 1'' @ [CHR 0x0A] @ ''footer 2''"


section \<open>Facts about the primitives\<close>

lemma py_index_last_Nil: "py_index ([]::'a list) (- 1) = Inl IndexError"
  by (simp add: py_index_def)

lemma py_index_last: "xs \<noteq> [] \<Longrightarrow> py_index xs (- 1) = Inr (last xs)"
  by (cases xs rule: rev_cases) (auto simp: py_index_def nth_append)

lemma py_index_0: "xs \<noteq> [] \<Longrightarrow> py_index xs 0 = Inr (hd xs)"
  by (cases xs) (auto simp: py_index_def)

lemma py_index_error: "py_index xs i = Inl e \<Longrightarrow> e = IndexError"
  by (auto simp: py_index_def split: if_splits)

lemma py_slice_tl: "py_slice xs (Some 1) None = tl xs"
  by (cases xs) (auto simp: py_slice_def slice_bound_def)

lemma py_slice_drop_last: "py_slice xs None (Some (- 106)) = take (length xs - 106) xs"
proof -
  have "nat (int (length xs) - 106) = length xs - 106" by linarith
  then show ?thesis by (simp add: py_slice_def slice_bound_def)
qed

lemma py_slice_doc_tail:
  "py_slice (pre @ [l, m]) (Some (int (length pre))) (Some (- 1)) = [l]"
proof -
  have "nat (1 + int (length pre)) = Suc (length pre)" by linarith
  then show ?thesis by (simp add: py_slice_def slice_bound_def)
qed

lemma split_sep_not_Nil: "split_sep sep s \<noteq> []"
  by (induction sep s rule: split_sep.induct) (auto split: list.splits)

lemma split_ws_aux_not_Nil: "cur \<noteq> [] \<Longrightarrow> split_ws_aux cur s \<noteq> []"
  by (induction s arbitrary: cur) auto

lemma re_match_split_ws: "re_match_pattern line \<Longrightarrow> split_ws line \<noteq> []"
  by (cases line)
    (auto simp: re_match_pattern_def split_ws_def split_ws_aux_not_Nil Let_def split: if_splits)

text \<open>
  The name pattern, read as a regular expression: the line starts with a non-empty run of
  non-whitespace characters followed by a space and an opening parenthesis.
\<close>

lemma re_match_pattern_iff:
  "re_match_pattern line \<longleftrightarrow>
     (\<exists>tok rest. tok \<noteq> [] \<and> (\<forall>c\<in>set tok. \<not> py_isspace c) \<and> line = tok @ '' ('' @ rest)"
proof
  assume m: "re_match_pattern line"
  define tok where "tok = takeWhile (\<lambda>c. \<not> py_isspace c) line"
  define r where "r = dropWhile (\<lambda>c. \<not> py_isspace c) line"
  from m have t: "tok \<noteq> []" and r2: "take 2 r = '' (''"
    by (simp_all add: re_match_pattern_def tok_def r_def Let_def)
  have "r = take 2 r @ drop 2 r" by simp
  then have "r = '' ('' @ drop 2 r" using r2 by simp
  moreover have "line = tok @ r" by (simp add: tok_def r_def)
  moreover have "\<forall>c\<in>set tok. \<not> py_isspace c"
    unfolding tok_def by (auto dest: set_takeWhileD)
  ultimately show "\<exists>tok rest. tok \<noteq> [] \<and> (\<forall>c\<in>set tok. \<not> py_isspace c) \<and>
      line = tok @ '' ('' @ rest"
    using t by metis
next
  assume "\<exists>tok rest. tok \<noteq> [] \<and> (\<forall>c\<in>set tok. \<not> py_isspace c) \<and> line = tok @ '' ('' @ rest"
  then obtain tok rest where t: "tok \<noteq> []" and a: "\<forall>c\<in>set tok. \<not> py_isspace c"
    and l: "line = tok @ '' ('' @ rest" by blast
  have sp: "py_isspace CHR '' ''" by code_simp
  have l': "line = tok @ CHR '' '' # (CHR ''('' # rest)" using l by simp
  have "takeWhile (\<lambda>c. \<not> py_isspace c) line = tok"
    unfolding l' using a sp by (simp add: takeWhile_tail)
  moreover have "dropWhile (\<lambda>c. \<not> py_isspace c) line = CHR '' '' # (CHR ''('' # rest)"
    unfolding l' using a sp by (simp add: dropWhile_append3)
  ultimately show "re_match_pattern line"
    using t by (simp add: re_match_pattern_def Let_def)
qed

lemma filter_single:
  "list_all (\<lambda>l. \<not> P l) pre \<Longrightarrow> list_all (\<lambda>l. \<not> P l) post \<Longrightarrow> P x \<Longrightarrow>
   filter P (pre @ [x] @ post) = [x]"
  by (simp add: list_all_iff filter_empty_conv)


section \<open>Name extraction\<close>

text \<open>
  \<open>_extract_names\<close> never raises: a line the pattern matches starts with a
  non-whitespace character, so \<open>line.split()[0]\<close> exists. It appends one operating
  name and one legal name per matching line, in order.
\<close>

lemma extract_names_gen:
  "extract_names st sub_list =
     Inr (st\<lparr>operating_name := operating_name st @
               map (\<lambda>l. hd (split_ws l)) (filter re_match_pattern sub_list),
             legal_name := legal_name st @
               map legal_of_line (filter re_match_pattern sub_list)\<rparr>)"
  by (induction sub_list arbitrary: st) (auto simp: py_index_0 re_match_split_ws)

text \<open>
  C7 (as amended). For every line of the segment that matches the name pattern, the value
  appended to the Legal Name list is the \<open>", "\<close>-join of the tokens after the first.
  When the line contains \<open>"The data in this document is reported"\<close>, that joined text
  loses exactly its last 106 characters if it has at least 106, and is replaced by the
  empty string if it has fewer; without the substring it is appended unchanged.
\<close>

theorem extract_names_legal_name_truncation:
  "extract_names st sub_list =
     Inr (st\<lparr>operating_name := operating_name st @
               map (\<lambda>l. hd (split_ws l)) (filter re_match_pattern sub_list),
             legal_name := legal_name st @
               map (\<lambda>l. if str_in ''The data in this document is reported'' l
                        then (if 106 \<le> length (join '', '' (tl (split_ws l)))
                              then take (length (join '', '' (tl (split_ws l))) - 106)
                                     (join '', '' (tl (split_ws l)))
                              else [])
                        else join '', '' (tl (split_ws l)))
                 (filter re_match_pattern sub_list)\<rparr>) \<and>
   (106 \<le> length (j :: string) \<longrightarrow>
      j = take (length j - 106) j @ drop (length j - 106) j \<and>
      length (drop (length j - 106) j) = 106)"
proof -
  have "legal_of_line = (\<lambda>l. if str_in ''The data in this document is reported'' l
                        then (if 106 \<le> length (join '', '' (tl (split_ws l)))
                              then take (length (join '', '' (tl (split_ws l))) - 106)
                                     (join '', '' (tl (split_ws l)))
                              else [])
                        else join '', '' (tl (split_ws l)))"
    by (rule ext) (simp add: legal_of_line_def py_slice_tl py_slice_drop_last Let_def)
  then have a: "extract_names st sub_list =
     Inr (st\<lparr>operating_name := operating_name st @
               map (\<lambda>l. hd (split_ws l)) (filter re_match_pattern sub_list),
             legal_name := legal_name st @
               map (\<lambda>l. if str_in ''The data in this document is reported'' l
                        then (if 106 \<le> length (join '', '' (tl (split_ws l)))
                              then take (length (join '', '' (tl (split_ws l))) - 106)
                                     (join '', '' (tl (split_ws l)))
                              else [])
                        else join '', '' (tl (split_ws l)))
                 (filter re_match_pattern sub_list)\<rparr>)"
    using extract_names_gen [of st sub_list] by simp
  have b: "106 \<le> length j \<longrightarrow>
      j = take (length j - 106) j @ drop (length j - 106) j \<and>
      length (drop (length j - 106) j) = 106"
    by simp
  from a b show ?thesis by (rule conjI)
qed

theorem extract_names_legal_name_truncation_witness:
  "extract_names (init_extractor [] [])
     [''ACME (Acme Corp) The data in this document is reported '' @ replicate 90 CHR ''x'',
      ''no match here'', ''BETA (B Corp)'',
      ''X (Y) The data in this document is reported''] =
   Inr ((init_extractor [] [])\<lparr>operating_name := [''ACME'', ''BETA'', ''X''],
          legal_name := [''(Acme, Corp), The, data, in, this, document'', ''(B, Corp)'', '''']\<rparr>) \<and>
   106 \<le> length (''(Acme, Corp), The, data, in, this, document, is, reported, '' @
                   replicate 90 CHR ''x'') \<and>
   length (drop (length (''(Acme, Corp), The, data, in, this, document, is, reported, '' @
                           replicate 90 CHR ''x'') - 106)
             (''(Acme, Corp), The, data, in, this, document, is, reported, '' @
                replicate 90 CHR ''x'')) = 106"
proof -
  note t = extract_names_legal_name_truncation
    [where st = "init_extractor [] []" and
       sub_list = "[''ACME (Acme Corp) The data in this document is reported '' @
                  replicate 90 CHR ''x'',
                ''no match here'', ''BETA (B Corp)'',
                ''X (Y) The data in this document is reported'']" and
       j = "''(Acme, Corp), The, data, in, this, document, is, reported, '' @
                   replicate 90 CHR ''x''"]
  have e: "Inr ((init_extractor [] [])\<lparr>operating_name := operating_name (init_extractor [] []) @
               map (\<lambda>l. hd (split_ws l)) (filter re_match_pattern
                 [''ACME (Acme Corp) The data in this document is reported '' @
                    replicate 90 CHR ''x'',
                  ''no match here'', ''BETA (B Corp)'',
                  ''X (Y) The data in this document is reported'']),
             legal_name := legal_name (init_extractor [] []) @
               map (\<lambda>l. if str_in ''The data in this document is reported'' l
                        then (if 106 \<le> length (join '', '' (tl (split_ws l)))
                              then take (length (join '', '' (tl (split_ws l))) - 106)
                                     (join '', '' (tl (split_ws l)))
                              else [])
                        else join '', '' (tl (split_ws l)))
                 (filter re_match_pattern
                 [''ACME (Acme Corp) The data in this document is reported '' @
                    replicate 90 CHR ''x'',
                  ''no match here'', ''BETA (B Corp)'',
                  ''X (Y) The data in this document is reported''])\<rparr>) =
           (Inr ((init_extractor [] [])\<lparr>operating_name := [''ACME'', ''BETA'', ''X''],
              legal_name := [''(Acme, Corp), The, data, in, this, document'', ''(B, Corp)'',
                             '''']\<rparr>)
            :: py_error + extractor)"
    by code_simp
  have r: "extract_names (init_extractor [] [])
     [''ACME (Acme Corp) The data in this document is reported '' @ replicate 90 CHR ''x'',
      ''no match here'', ''BETA (B Corp)'',
      ''X (Y) The data in this document is reported''] =
   Inr ((init_extractor [] [])\<lparr>operating_name := [''ACME'', ''BETA'', ''X''],
          legal_name := [''(Acme, Corp), The, data, in, this, document'', ''(B, Corp)'', '''']\<rparr>)"
    by (rule trans [OF t [THEN conjunct1] e])
  have l: "106 \<le> length (''(Acme, Corp), The, data, in, this, document, is, reported, '' @
                   replicate 90 CHR ''x'')" by simp
  note d = t [THEN conjunct2, THEN mp, OF l, THEN conjunct2]
  from r l d show ?thesis by (intro conjI)
qed

theorem extract_names_legal_name_truncation_counterexample:
  "re_match_pattern ''X (Y) The data in this document is reported'' \<and>
   str_in ''The data in this document is reported''
     ''X (Y) The data in this document is reported'' \<and>
   join '', '' (tl (split_ws ''X (Y) The data in this document is reported'')) =
     ''(Y), The, data, in, this, document, is, reported'' \<and>
   length ''(Y), The, data, in, this, document, is, reported'' = 48 \<and>
   extract_names (init_extractor [] []) [''X (Y) The data in this document is reported''] =
     Inr ((init_extractor [] [])\<lparr>operating_name := [''X''], legal_name := ['''']\<rparr>)"
  by code_simp

lemma acme_match: "re_match_pattern ''ACME (Example Corp, Inc.)''"
  by code_simp

text \<open>
  C4 (as amended). On a segment whose only line matching the name pattern is
  \<open>"ACME (Example Corp, Inc.)"\<close>, the name step appends Operating Name \<open>"ACME"\<close> and
  Legal Name \<open>"(Example, Corp,, Inc.)"\<close>: the tokens after the first are joined with
  \<open>", "\<close>. The table-level cleanup (every Legal Name goes through the parenthesis
  stripping) turns that value into \<open>"Example, Corp,, Inc."\<close>.
\<close>

theorem extract_names_acme:
  assumes "list_all (\<lambda>l. \<not> re_match_pattern l) pre"
      and "list_all (\<lambda>l. \<not> re_match_pattern l) post"
  shows "extract_names st (pre @ [''ACME (Example Corp, Inc.)''] @ post) =
           Inr (st\<lparr>operating_name := operating_name st @ [''ACME''],
                   legal_name := legal_name st @ [''(Example, Corp,, Inc.)'']\<rparr>) \<and>
         strip_parens ''(Example, Corp,, Inc.)'' = ''Example, Corp,, Inc.'' \<and>
         (create_dataframe st' = Inr df \<longrightarrow>
            col_legal_name df = map strip_parens (legal_name st'))"
proof -
  have f: "filter re_match_pattern (pre @ [''ACME (Example Corp, Inc.)''] @ post) =
           [''ACME (Example Corp, Inc.)'']"
    using filter_single [of re_match_pattern pre post "''ACME (Example Corp, Inc.)''"]
      assms acme_match by blast
  have h: "hd (split_ws ''ACME (Example Corp, Inc.)'') = ''ACME''" by code_simp
  have l: "legal_of_line ''ACME (Example Corp, Inc.)'' = ''(Example, Corp,, Inc.)''"
    by code_simp
  have s: "strip_parens ''(Example, Corp,, Inc.)'' = ''Example, Corp,, Inc.''" by code_simp
  have m: "extract_names st (pre @ [''ACME (Example Corp, Inc.)''] @ post) =
           Inr (st\<lparr>operating_name := operating_name st @ [''ACME''],
                   legal_name := legal_name st @ [''(Example, Corp,, Inc.)'']\<rparr>)"
    unfolding extract_names_gen [of st "pre @ [''ACME (Example Corp, Inc.)''] @ post"] f
    by (simp only: list.map h l)
  have d: "create_dataframe st' = Inr df \<longrightarrow>
            col_legal_name df = map strip_parens (legal_name st')"
    by (auto simp: create_dataframe_def Let_def split: if_splits)
  from m s d show ?thesis by blast
qed

theorem extract_names_acme_witness:
  "list_all (\<lambda>l. \<not> re_match_pattern l) [''Standards Action''] \<and>
   list_all (\<lambda>l. \<not> re_match_pattern l) [''ANSI X1-2020, Title''] \<and>
   extract_names (init_extractor [] [])
     ([''Standards Action''] @ [''ACME (Example Corp, Inc.)''] @ [''ANSI X1-2020, Title'']) =
     Inr ((init_extractor [] [])
            \<lparr>operating_name := operating_name (init_extractor [] []) @ [''ACME''],
             legal_name := legal_name (init_extractor [] []) @ [''(Example, Corp,, Inc.)'']\<rparr>) \<and>
   strip_parens ''(Example, Corp,, Inc.)'' = ''Example, Corp,, Inc.''"
proof -
  have a: "list_all (\<lambda>l. \<not> re_match_pattern l) [''Standards Action'']" by code_simp
  have b: "list_all (\<lambda>l. \<not> re_match_pattern l) [''ANSI X1-2020, Title'']" by code_simp
  from a b extract_names_acme [of "[''Standards Action'']" "[''ANSI X1-2020, Title'']"
      "init_extractor [] []", OF a b]
  show ?thesis by blast
qed

theorem extract_names_acme_counterexample:
  "extract_names (init_extractor [] []) [''ACME (Example Corp, Inc.)''] \<noteq>
     Inr ((init_extractor [] [])\<lparr>operating_name := [''ACME''],
            legal_name := [''(Example Corp, Inc.)'']\<rparr>)"
  by code_simp

section \<open>Document information\<close>

lemma find_doc_index_append:
  "list_all (\<lambda>l. \<not> doc_line l) pre \<Longrightarrow> doc_line l \<Longrightarrow>
   find_doc_index k (pre @ l # rest) = Some (k + length pre)"
  by (induction pre arbitrary: k) auto

lemma find_doc_index_None:
  "list_all (\<lambda>l. \<not> doc_line l) xs \<Longrightarrow> find_doc_index k xs = None"
  by (induction xs arbitrary: k) auto

lemma doc_line_example: "doc_line ''ANSI X9.24-2021, Retail Financial Services Key Management''"
  by code_simp

lemma split_example:
  "split_sep '','' ''ANSI X9.24-2021, Retail Financial Services Key Management'' =
     [''ANSI X9.24-2021'', '' Retail Financial Services Key Management'']"
  by code_simp

text \<open>
  C6. In a segment whose first line that starts with \<open>"ANSI"\<close> or \<open>"INCITS"\<close> and
  contains a comma is \<open>"ANSI X9.24-2021, Retail Financial Services Key Management"\<close>,
  followed only by the marker line \<open>m\<close>, the document-info step appends Document Name
  \<open>"ANSI X9.24-2021"\<close> and Standard Title \<open>"Retail Financial Services Key Management"\<close>.
\<close>

theorem extract_document_info_x9:
  assumes "list_all (\<lambda>l. \<not> doc_line l) pre"
  shows "extract_document_info st
           (pre @ [''ANSI X9.24-2021, Retail Financial Services Key Management'', m]) =
         Inr (st\<lparr>document_name := document_name st @ [''ANSI X9.24-2021''],
                 standard_title := standard_title st @
                   [''Retail Financial Services Key Management'']\<rparr>)"
proof -
  have idx: "find_doc_index 0
      (pre @ [''ANSI X9.24-2021, Retail Financial Services Key Management'', m]) =
      Some (length pre)"
    using find_doc_index_append
      [of pre "''ANSI X9.24-2021, Retail Financial Services Key Management''" 0 "[m]"]
      assms doc_line_example by simp
  have title: "lstrip_space (join '' '' (py_slice
       [''ANSI X9.24-2021'', '' Retail Financial Services Key Management''] (Some 1) None)) =
       ''Retail Financial Services Key Management''"
    by code_simp
  show ?thesis
    unfolding extract_document_info_def idx
    by (simp add: py_slice_doc_tail split_example py_index_0 title Let_def del: split_sep.simps)
qed

theorem extract_document_info_x9_witness:
  "list_all (\<lambda>l. \<not> doc_line l) [''ACME (Example Corp, Inc.)'', ''ANSI without comma''] \<and>
   extract_document_info (init_extractor [] [])
     ([''ACME (Example Corp, Inc.)'', ''ANSI without comma''] @
      [''ANSI X9.24-2021, Retail Financial Services Key Management'',
       ''x | Final Action Date: 2021-05-01 | y'']) =
   Inr ((init_extractor [] [])
     \<lparr>document_name := document_name (init_extractor [] []) @ [''ANSI X9.24-2021''],
      standard_title := standard_title (init_extractor [] []) @
        [''Retail Financial Services Key Management'']\<rparr>)"
proof -
  have a: "list_all (\<lambda>l. \<not> doc_line l) [''ACME (Example Corp, Inc.)'', ''ANSI without comma'']"
    by code_simp
  show ?thesis
    by (rule conjI [OF a extract_document_info_x9
      [of "[''ACME (Example Corp, Inc.)'', ''ANSI without comma'']" "init_extractor [] []"
          "''x | Final Action Date: 2021-05-01 | y''", OF a]])
qed

lemma extract_document_info_titles:
  "extract_document_info st sub_list = Inr st' \<Longrightarrow>
   length (standard_title st') = Suc (length (standard_title st)) \<and>
   length (document_name st') = Suc (length (document_name st)) \<and>
   operating_name st' = operating_name st \<and> legal_name st' = legal_name st \<and>
   website st' = website st \<and> publishing_date st' = publishing_date st"
  by (auto simp: extract_document_info_def Let_def split: option.splits sum.splits)

section \<open>Reconciliation\<close>

lemma pad_names_empty:
  "operating_name s = [] \<Longrightarrow> length (operating_name s) < length (standard_title s) \<Longrightarrow>
   pad_names s = Inl IndexError"
  by (simp add: pad_names_def py_index_last_Nil)

lemma pad_names_error: "pad_names s = Inl e \<Longrightarrow> e = IndexError"
  by (auto simp: pad_names_def split: if_splits sum.splits dest: py_index_error)

lemma pad_names_others:
  "pad_names s = Inr s1 \<Longrightarrow>
   website s1 = website s \<and> standard_title s1 = standard_title s \<and>
   document_name s1 = document_name s \<and> publishing_date s1 = publishing_date s"
  by (auto simp: pad_names_def split: if_splits sum.splits)

lemma pad_website_empty:
  "website s = [] \<Longrightarrow> length (website s) < length (standard_title s) \<Longrightarrow>
   pad_website s = Inl IndexError"
  by (simp add: pad_website_def py_index_last_Nil)

lemma pad_website_error: "pad_website s = Inl e \<Longrightarrow> e = IndexError"
  by (auto simp: pad_website_def split: if_splits sum.splits dest: py_index_error)

lemma ensure_consistency_IndexError:
  assumes "(operating_name s = [] \<and> length (operating_name s) < length (standard_title s)) \<or>
    (website s = [] \<and> length (website s) < length (standard_title s))"
  shows "ensure_data_consistency s = Inl IndexError"
proof (cases "pad_names s")
  case (Inl e)
  then show ?thesis using pad_names_error [OF Inl] by (simp add: ensure_data_consistency_def)
next
  case (Inr s1)
  have "\<not> (operating_name s = [] \<and> length (operating_name s) < length (standard_title s))"
    using Inr pad_names_empty [of s] by auto
  with assms have "website s = [] \<and> length (website s) < length (standard_title s)" by blast
  then have "pad_website s1 = Inl IndexError"
    using pad_names_others [OF Inr] pad_website_empty [of s1] by auto
  then show ?thesis using Inr by (simp add: ensure_data_consistency_def)
qed

text \<open>
  C10. Reconciliation called with an empty Operating Name list that is behind the
  Standard Title list, or with an empty Website list that is behind it, raises
  \<open>IndexError\<close> (reading \<open>[-1]\<close> of an empty list). In particular this happens
  right after a successful document-info step whenever no operating name, or no website,
  has been collected so far: padding presupposes an earlier entry.
\<close>

theorem ensure_data_consistency_empty:
  "((operating_name st = [] \<and> length (operating_name st) < length (standard_title st)) \<or>
    (website st = [] \<and> length (website st) < length (standard_title st))
      \<longrightarrow> ensure_data_consistency st = Inl IndexError) \<and>
   ((operating_name st3 = [] \<or> website st3 = []) \<and>
      extract_document_info st3 sub_list = Inr st4
      \<longrightarrow> ensure_data_consistency st4 = Inl IndexError)"
proof -
  have "ensure_data_consistency st4 = Inl IndexError"
    if "operating_name st3 = [] \<or> website st3 = []"
      and "extract_document_info st3 sub_list = Inr st4"
    using extract_document_info_titles [OF that(2)] that(1)
      ensure_consistency_IndexError [of st4] by auto
  with ensure_consistency_IndexError [of st] show ?thesis by blast
qed

theorem ensure_data_consistency_empty_witness:
  "ensure_data_consistency
     ((init_extractor [] [])\<lparr>website := [''Nil''], document_name := [''ANSI X1-2020''],
        standard_title := [''Title''], publishing_date := [''1/1/2020'']\<rparr>) = Inl IndexError \<and>
   parse_text_data (init_extractor [] [])
     [concat (replicate 11 (''header'' @ [CHR 0x0A])) @ ''ANSI X1-2020, Title'' @ [CHR 0x0A] @
      ''x | Final Action Date: 1/1/2020'' @ [CHR 0x0A] @ ''footer'' @ [CHR 0x0A] @ ''footer'']
     = Inl IndexError"
proof -
  have a: "operating_name ((init_extractor [] [])\<lparr>website := [''Nil''], document_name := [''ANSI X1-2020''],
        standard_title := [''Title''], publishing_date := [''1/1/2020'']\<rparr>) = [] \<and>
     length (operating_name ((init_extractor [] [])\<lparr>website := [''Nil''], document_name := [''ANSI X1-2020''],
        standard_title := [''Title''], publishing_date := [''1/1/2020'']\<rparr>)) <
     length (standard_title ((init_extractor [] [])\<lparr>website := [''Nil''], document_name := [''ANSI X1-2020''],
        standard_title := [''Title''], publishing_date := [''1/1/2020'']\<rparr>))"
    by (simp add: init_extractor_def)
  have b: "ensure_data_consistency
     ((init_extractor [] [])\<lparr>website := [''Nil''], document_name := [''ANSI X1-2020''],
        standard_title := [''Title''], publishing_date := [''1/1/2020'']\<rparr>) = Inl IndexError"
    using a ensure_data_consistency_empty
      [of "(init_extractor [] [])\<lparr>website := [''Nil''], document_name := [''ANSI X1-2020''],
        standard_title := [''Title''], publishing_date := [''1/1/2020'']\<rparr>"]
    by blast
  have c: "parse_text_data (init_extractor [] [])
     [concat (replicate 11 (''header'' @ [CHR 0x0A])) @ ''ANSI X1-2020, Title'' @ [CHR 0x0A] @
      ''x | Final Action Date: 1/1/2020'' @ [CHR 0x0A] @ ''footer'' @ [CHR 0x0A] @ ''footer'']
     = Inl IndexError"
    by code_simp
  from b c show ?thesis by (rule conjI)
qed


section \<open>Segmentation of a page\<close>

lemma enumerate_filter_fst:
  "map fst (filter (\<lambda>(idx, s). P s) (enumerate n xs)) =
   filter (\<lambda>p. P (xs ! (p - n))) [n..<n + length xs]"
proof (induction xs arbitrary: n)
  case Nil
  then show ?case by simp
next
  case (Cons x xs)
  have u: "[n..<n + length (x # xs)] = n # [Suc n..<Suc n + length xs]"
    by (simp add: upt_conv_Cons del: upt_Suc)
  have c: "filter (\<lambda>p. P ((x # xs) ! (p - n))) [Suc n..<Suc n + length xs] =
        filter (\<lambda>p. P (xs ! (p - Suc n))) [Suc n..<Suc n + length xs]"
  proof (rule filter_cong [OF refl])
    fix p assume "p \<in> set [Suc n..<Suc n + length xs]"
    then have "p - n = Suc (p - Suc n)" by auto
    then show "P ((x # xs) ! (p - n)) = P (xs ! (p - Suc n))" by simp
  qed
  have "map fst (filter (\<lambda>(idx, s). P s) (enumerate n (x # xs))) =
        (if P x then [n] else []) @
          map fst (filter (\<lambda>(idx, s). P s) (enumerate (Suc n) xs))"
    by simp
  also have "\<dots> = (if P x then [n] else []) @
          filter (\<lambda>p. P ((x # xs) ! (p - n))) [Suc n..<Suc n + length xs]"
    unfolding c Cons [of "Suc n"] ..
  also have "\<dots> = filter (\<lambda>p. P ((x # xs) ! (p - n))) (n # [Suc n..<Suc n + length xs])"
    by simp
  finally show ?case unfolding u .
qed

lemma final_action_indices_filter:
  "final_action_indices page =
     filter (\<lambda>p. str_in ''Final Action Date'' (page ! p)) [0..<length page]"
  unfolding final_action_indices_def using enumerate_filter_fst [of "str_in ''Final Action Date''" 0 page] by simp

lemma final_action_indices_sorted: "sorted_wrt (<) (final_action_indices page)"
  unfolding final_action_indices_filter by (rule sorted_wrt_filter) simp

lemma final_action_indices_mem:
  "p \<in> set (final_action_indices page) \<longleftrightarrow>
   p < length page \<and> str_in ''Final Action Date'' (page ! p)"
  unfolding final_action_indices_filter by auto

lemma final_action_indices_Nil:
  "final_action_indices page = [] \<longleftrightarrow> list_all (\<lambda>l. \<not> str_in ''Final Action Date'' l) page"
  unfolding final_action_indices_filter
  by (auto simp: filter_empty_conv list_all_length)

lemma process_sections_segments:
  "process_sections st page start idxs = process_segments st (sections page start idxs)"
  by (induction idxs arbitrary: st start) (auto split: sum.splits)

lemma length_sections: "length (sections page start idxs) = length idxs"
  by (induction idxs arbitrary: start) auto

lemma sections_nth:
  "j < length idxs \<Longrightarrow>
   sections page start idxs ! j =
     py_slice page (Some ((if j = 0 then start else int (idxs ! (j - 1))) + 1))
       (Some (int (idxs ! j) + 1))"
proof (induction idxs arbitrary: start j)
  case Nil
  then show ?case by simp
next
  case (Cons idx idxs)
  show ?case
  proof (cases j)
    case 0
    then show ?thesis by simp
  next
    case (Suc k)
    then have "k < length idxs" using Cons.prems by simp
    from Cons.IH [OF this, of "int idx"] Suc show ?thesis
      by (cases k) auto
  qed
qed

lemma py_slice_nat:
  "py_slice xs (Some (int a)) (Some (int b + 1)) = drop a (take (Suc b) xs)"
proof -
  have "nat (int b + 1) = Suc b" by linarith
  then show ?thesis
    by (auto simp: py_slice_def slice_bound_def min_def drop_take Let_def)
qed

lemma segment_shape:
  assumes "a \<le> b" "b < length xs"
  shows "drop a (take (Suc b) xs) \<noteq> [] \<and> last (drop a (take (Suc b) xs)) = xs ! b"
proof -
  have "take (Suc b) xs = take b xs @ [xs ! b]"
    using assms(2) by (rule take_Suc_conv_app_nth)
  moreover have "length (take b xs) = b" using assms(2) by simp
  ultimately have "drop a (take (Suc b) xs) = drop a (take b xs) @ [xs ! b]"
    using assms(1) by simp
  then show ?thesis by simp
qed

lemma page_lines_take_drop:
  "page_lines i page_text =
     (if i = 0 then drop 11 (take (length (split_sep [CHR 0x0A] page_text) - 2)
                                (split_sep [CHR 0x0A] page_text))
      else take (length (split_sep [CHR 0x0A] page_text) - 2) (split_sep [CHR 0x0A] page_text))"
proof -
  have "nat (int n - 2) = n - 2" for n :: nat by linarith
  then show ?thesis
    by (auto simp: page_lines_def py_slice_def slice_bound_def min_def drop_take Let_def
        numeral_2_eq_2 simp del: split_sep.simps)
qed

section \<open>What each step changes, and which errors it raises\<close>

lemma publishing_date_loop_others:
  "publishing_date_loop st ks = Inr st' \<Longrightarrow>
   document_name st' = document_name st \<and> standard_title st' = standard_title st \<and>
   operating_name st' = operating_name st \<and> legal_name st' = legal_name st \<and>
   website st' = website st"
  by (induction ks arbitrary: st) (auto split: if_splits sum.splits)

lemma publishing_date_loop_error: "publishing_date_loop st ks = Inl e \<Longrightarrow> e = IndexError"
  by (induction ks arbitrary: st) (auto split: if_splits sum.splits dest: py_index_error)

lemma extract_publishing_date_others:
  "extract_publishing_date st seg = Inr st' \<Longrightarrow>
   document_name st' = document_name st \<and> standard_title st' = standard_title st \<and>
   operating_name st' = operating_name st \<and> legal_name st' = legal_name st \<and>
   website st' = website st"
  by (auto simp: extract_publishing_date_def split: sum.splits dest: publishing_date_loop_others)

lemma extract_publishing_date_error: "extract_publishing_date st seg = Inl e \<Longrightarrow> e = IndexError"
  by (auto simp: extract_publishing_date_def split: sum.splits
      dest: publishing_date_loop_error py_index_error)

lemma extract_names_others:
  "extract_names st seg = Inr st' \<Longrightarrow>
   document_name st' = document_name st \<and> standard_title st' = standard_title st \<and>
   website st' = website st \<and> publishing_date st' = publishing_date st"
  unfolding extract_names_gen [of st seg] by auto

lemma extract_names_no_error: "extract_names st seg \<noteq> Inl e"
  unfolding extract_names_gen [of st seg] by simp

lemma extract_website_others:
  "extract_website st seg = Inr st' \<Longrightarrow>
   document_name st' = document_name st \<and> standard_title st' = standard_title st \<and>
   operating_name st' = operating_name st \<and> legal_name st' = legal_name st \<and>
   publishing_date st' = publishing_date st"
  by (induction seg arbitrary: st) (auto split: if_splits sum.splits)

lemma extract_website_error: "extract_website st seg = Inl e \<Longrightarrow> e = IndexError"
  by (induction seg arbitrary: st) (auto split: if_splits sum.splits dest: py_index_error)

lemma extract_document_info_error:
  "extract_document_info st seg = Inl e \<Longrightarrow> e = UnboundLocalError"
  by (auto simp: extract_document_info_def Let_def py_index_0 split_sep_not_Nil
      split: option.splits sum.splits simp del: split_sep.simps)

lemma extract_document_info_no_doc_line:
  "list_all (\<lambda>l. \<not> doc_line l) seg \<Longrightarrow> extract_document_info st seg = Inl UnboundLocalError"
  by (simp add: extract_document_info_def find_doc_index_None)

lemma ensure_data_consistency_others:
  "ensure_data_consistency st = Inr st' \<Longrightarrow>
   document_name st' = document_name st \<and> standard_title st' = standard_title st \<and>
   publishing_date st' = publishing_date st"
  by (auto simp: ensure_data_consistency_def pad_names_def pad_website_def
      split: sum.splits if_splits)

lemma ensure_data_consistency_error: "ensure_data_consistency st = Inl e \<Longrightarrow> e = IndexError"
  by (auto simp: ensure_data_consistency_def split: sum.splits
      dest: pad_names_error pad_website_error)

lemma process_segment_error:
  "process_segment st seg = Inl e \<Longrightarrow> e = IndexError \<or> e = UnboundLocalError"
  by (auto simp: process_segment_def extract_names_no_error split: sum.splits
      dest: extract_publishing_date_error extract_website_error extract_document_info_error
        ensure_data_consistency_error)

lemma process_segment_doc:
  assumes "process_segment st seg = Inr st'"
  shows "length (document_name st') = Suc (length (document_name st)) \<and>
         length (standard_title st') = Suc (length (standard_title st))"
proof -
  from assms obtain st1 st2 st3 st4 where
    a: "extract_publishing_date st seg = Inr st1" and
    b: "extract_names st1 seg = Inr st2" and
    c: "extract_website st2 seg = Inr st3" and
    d: "extract_document_info st3 seg = Inr st4" and
    e: "ensure_data_consistency st4 = Inr st'"
    by (auto simp: process_segment_def split: sum.splits)
  show ?thesis
    using extract_publishing_date_others [OF a] extract_names_others [OF b]
      extract_website_others [OF c] extract_document_info_titles [OF d]
      ensure_data_consistency_others [OF e]
    by simp
qed

lemma process_segment_no_doc_line:
  assumes "list_all (\<lambda>l. \<not> doc_line l) seg"
  shows "\<exists>e. process_segment st seg = Inl e"
  using extract_document_info_no_doc_line [OF assms]
  by (auto simp: process_segment_def split: sum.splits)

lemma process_segments_doc:
  "process_segments st segs = Inr st' \<Longrightarrow>
   length (document_name st') = length (document_name st) + length segs \<and>
   length (standard_title st') = length (standard_title st) + length segs"
proof (induction segs arbitrary: st)
  case Nil
  then show ?case by simp
next
  case (Cons seg segs)
  then obtain st1 where s: "process_segment st seg = Inr st1"
    and r: "process_segments st1 segs = Inr st'"
    by (auto split: sum.splits)
  from Cons.IH [OF r] process_segment_doc [OF s] show ?case by simp
qed

lemma process_segments_error:
  "process_segments st segs = Inl e \<Longrightarrow> e = IndexError \<or> e = UnboundLocalError"
  by (induction segs arbitrary: st) (auto split: sum.splits dest: process_segment_error)

lemma process_segments_no_doc_line:
  "seg \<in> set segs \<Longrightarrow> list_all (\<lambda>l. \<not> doc_line l) seg \<Longrightarrow>
   \<exists>e. process_segments st segs = Inl e"
proof (induction segs arbitrary: st)
  case Nil
  then show ?case by simp
next
  case (Cons s segs)
  show ?case
  proof (cases "process_segment st s")
    case (Inl e)
    then show ?thesis by simp
  next
    case (Inr st1)
    have "s \<noteq> seg" using Inr process_segment_no_doc_line [OF Cons.prems(2), of st] by auto
    then have "seg \<in> set segs" using Cons.prems(1) by simp
    from Cons.IH [OF this Cons.prems(2), of st1] Inr show ?thesis by simp
  qed
qed

lemma parse_page_as_segments:
  "parse_page st i page_text =
     process_segments (check_website st (page_lines i page_text))
       (sections (page_lines i page_text) (- 1) (final_action_indices (page_lines i page_text)))"
  by (simp add: parse_page_def Let_def process_sections_segments)

lemma parse_pages_no_doc_line:
  "i < length pages \<Longrightarrow>
   seg \<in> set (sections (page_lines (k + i) (pages ! i)) (- 1)
                 (final_action_indices (page_lines (k + i) (pages ! i)))) \<Longrightarrow>
   list_all (\<lambda>l. \<not> doc_line l) seg \<Longrightarrow>
   \<exists>e. parse_pages st k pages = Inl e"
proof (induction pages arbitrary: st k i)
  case Nil
  then show ?case by simp
next
  case (Cons t pages)
  show ?case
  proof (cases i)
    case 0
    then have "seg \<in> set (sections (page_lines k t) (- 1)
                 (final_action_indices (page_lines k t)))"
      using Cons.prems(2) by simp
    from process_segments_no_doc_line [OF this Cons.prems(3)]
    obtain e where "process_segments (check_website st (page_lines k t))
        (sections (page_lines k t) (- 1) (final_action_indices (page_lines k t))) = Inl e"
      by blast
    then show ?thesis by (simp add: parse_page_as_segments)
  next
    case (Suc j)
    show ?thesis
    proof (cases "parse_page st k t")
      case (Inl e)
      then show ?thesis by simp
    next
      case (Inr st1)
      have "j < length pages" using Cons.prems(1) Suc by simp
      moreover have "seg \<in> set (sections (page_lines (Suc k + j) (pages ! j)) (- 1)
                 (final_action_indices (page_lines (Suc k + j) (pages ! j))))"
        using Cons.prems(2) Suc by simp
      ultimately obtain e where "parse_pages st1 (Suc k) pages = Inl e"
        using Cons.IH [of j "Suc k" st1] Cons.prems(3) by blast
      then show ?thesis using Inr by simp
    qed
  qed
qed

section \<open>Segments of a page and of a run (claims C1 and C2)\<close>


lemma page_segments_shape:
  assumes ls: "ls = split_sep [CHR 0x0A] page_text"
      and page: "page = page_lines i page_text"
      and idxs: "idxs = final_action_indices page"
  shows "page = (if i = 0 then drop 11 (take (length ls - 2) ls) else take (length ls - 2) ls) \<and>
         idxs = filter (\<lambda>p. str_in ''Final Action Date'' (page ! p)) [0..<length page] \<and>
         parse_page st i page_text =
           process_segments (check_website st page) (sections page (- 1) idxs) \<and>
         length (sections page (- 1) idxs) = length idxs \<and>
         (\<forall>j<length idxs.
            sections page (- 1) idxs ! j =
              py_slice page (Some ((if j = 0 then - 1 else int (idxs ! (j - 1))) + 1))
                (Some (int (idxs ! j) + 1)) \<and>
            sections page (- 1) idxs ! j =
              drop (if j = 0 then 0 else Suc (idxs ! (j - 1))) (take (Suc (idxs ! j)) page) \<and>
            sections page (- 1) idxs ! j \<noteq> [] \<and>
            last (sections page (- 1) idxs ! j) = page ! (idxs ! j) \<and>
            str_in ''Final Action Date'' (last (sections page (- 1) idxs ! j))) \<and>
         (parse_page st i page_text = Inr st' \<longrightarrow>
            length (document_name st') = length (document_name st) + length idxs)"
proof -
  have c1: "page = (if i = 0 then drop 11 (take (length ls - 2) ls) else take (length ls - 2) ls)"
    unfolding page ls by (rule page_lines_take_drop)
  have c2: "idxs = filter (\<lambda>p. str_in ''Final Action Date'' (page ! p)) [0..<length page]"
    unfolding idxs by (rule final_action_indices_filter)
  have c3: "parse_page st i page_text =
           process_segments (check_website st page) (sections page (- 1) idxs)"
    unfolding idxs page by (rule parse_page_as_segments)
  have c4: "length (sections page (- 1) idxs) = length idxs"
    by (rule length_sections)
  have c5: "sections page (- 1) idxs ! j =
              py_slice page (Some ((if j = 0 then - 1 else int (idxs ! (j - 1))) + 1))
                (Some (int (idxs ! j) + 1)) \<and>
            sections page (- 1) idxs ! j =
              drop (if j = 0 then 0 else Suc (idxs ! (j - 1))) (take (Suc (idxs ! j)) page) \<and>
            sections page (- 1) idxs ! j \<noteq> [] \<and>
            last (sections page (- 1) idxs ! j) = page ! (idxs ! j) \<and>
            str_in ''Final Action Date'' (last (sections page (- 1) idxs ! j))"
    if j: "j < length idxs" for j
  proof -
    define a where "a = (if j = 0 then 0 else Suc (idxs ! (j - 1)))"
    define b where "b = idxs ! j"
    have s1: "sections page (- 1) idxs ! j =
              py_slice page (Some ((if j = 0 then - 1 else int (idxs ! (j - 1))) + 1))
                (Some (int (idxs ! j) + 1))"
      by (rule sections_nth [OF j])
    have "(if j = 0 then - 1 else int (idxs ! (j - 1))) + 1 = int a"
      by (simp add: a_def)
    then have s2: "sections page (- 1) idxs ! j = drop a (take (Suc b) page)"
      unfolding s1 b_def by (simp only: py_slice_nat)
    have "b \<in> set (final_action_indices page)"
      using j unfolding b_def idxs by simp
    then have b: "b < length page" and m: "str_in ''Final Action Date'' (page ! b)"
      by (simp_all add: final_action_indices_mem)
    have "a \<le> b"
    proof (cases "j = 0")
      case True
      then show ?thesis by (simp add: a_def)
    next
      case False
      then have "j - 1 < j" by simp
      from sorted_wrt_nth_less [OF final_action_indices_sorted this] j
      have "idxs ! (j - 1) < idxs ! j" unfolding idxs by simp
      with False show ?thesis by (simp add: a_def b_def)
    qed
    from segment_shape [OF this b]
    have sh: "drop a (take (Suc b) page) \<noteq> [] \<and> last (drop a (take (Suc b) page)) = page ! b" .
    have r2: "sections page (- 1) idxs ! j =
              drop (if j = 0 then 0 else Suc (idxs ! (j - 1))) (take (Suc (idxs ! j)) page)"
      using s2 unfolding a_def b_def .
    have r3: "sections page (- 1) idxs ! j \<noteq> []"
      unfolding s2 using sh by (rule conjunct1)
    have r4: "last (sections page (- 1) idxs ! j) = page ! (idxs ! j)"
      unfolding s2 using sh unfolding b_def by (rule conjunct2)
    have r5: "str_in ''Final Action Date'' (last (sections page (- 1) idxs ! j))"
      unfolding r4 using m unfolding b_def .
    from s1 r2 r3 r4 r5 show ?thesis by (intro conjI)
  qed
  have c6: "length (document_name st') = length (document_name st) + length idxs"
    if "parse_page st i page_text = Inr st'"
  proof -
    have "document_name (check_website st page) = document_name st"
      by (simp add: check_website_def)
    with process_segments_doc [of "check_website st page" "sections page (- 1) idxs" st']
      that c3 c4 show ?thesis by simp
  qed
  from c1 c2 c3 c4 c5 c6 show ?thesis by blast
qed

lemma parse_pages_snoc:
  "parse_pages st k (pages @ [t]) =
     (case parse_pages st k pages of
        Inl e \<Rightarrow> Inl e
      | Inr st1 \<Rightarrow> parse_page st1 (k + length pages) t)"
  by (induction pages arbitrary: st k) (auto split: sum.splits)

lemma parse_page_doc_count:
  assumes "parse_page st k t = Inr st'"
  shows "length (document_name st') =
         length (document_name st) + length (final_action_indices (page_lines k t))"
proof -
  have "document_name (check_website st (page_lines k t)) = document_name st"
    by (simp add: check_website_def)
  with process_segments_doc [OF assms [unfolded parse_page_as_segments]] show ?thesis
    by (simp add: length_sections)
qed

lemma parse_pages_doc_count:
  "parse_pages st k pages = Inr st' \<Longrightarrow>
   length (document_name st') =
     length (document_name st) +
     sum_list (map (\<lambda>(i, t). length (final_action_indices (page_lines i t)))
                 (enumerate k pages))"
proof (induction pages arbitrary: st k)
  case Nil
  then show ?case by simp
next
  case (Cons t pages)
  from Cons.prems obtain st1 where s: "parse_page st k t = Inr st1"
    and r: "parse_pages st1 (Suc k) pages = Inr st'"
    by (auto split: sum.splits)
  from Cons.IH [OF r] parse_page_doc_count [OF s] show ?case by simp
qed

text \<open>
  C1. \<open>parse_text_data\<close> handles the pages in order, page \<open>i\<close> of the input with
  index \<open>i\<close>. Its kept lines are \<open>lines[11:-2]\<close> for index 0 and \<open>lines[:-2]\<close>
  otherwise. With \<open>idxs\<close> the positions of the kept lines that contain
  \<open>"Final Action Date"\<close>, in increasing order, the run up to and including page \<open>i\<close>
  is the run over the earlier pages followed by the field extraction over exactly
  \<open>length idxs\<close> segments, segment \<open>j\<close> being \<open>page[idxs[j-1]+1 : idxs[j]+1]\<close> (from 0
  for the first): it is not empty and its last line is the marker line at \<open>idxs[j]\<close>.
  When no exception is raised, one document name has been appended per segment, for the
  page and for the whole run.
\<close>

theorem parse_text_data_segments:
  assumes i: "i < length pages"
      and ls: "ls = split_sep [CHR 0x0A] (pages ! i)"
      and page: "page = page_lines i (pages ! i)"
      and idxs: "idxs = final_action_indices page"
  shows "page = (if i = 0 then drop 11 (take (length ls - 2) ls) else take (length ls - 2) ls) \<and>
         idxs = filter (\<lambda>p. str_in ''Final Action Date'' (page ! p)) [0..<length page] \<and>
         parse_text_data st (take (Suc i) pages) =
           (case parse_text_data st (take i pages) of
              Inl e \<Rightarrow> Inl e
            | Inr st1 \<Rightarrow>
                process_segments (check_website st1 page) (sections page (- 1) idxs)) \<and>
         length (sections page (- 1) idxs) = length idxs \<and>
         (\<forall>j<length idxs.
            sections page (- 1) idxs ! j =
              py_slice page (Some ((if j = 0 then - 1 else int (idxs ! (j - 1))) + 1))
                (Some (int (idxs ! j) + 1)) \<and>
            sections page (- 1) idxs ! j =
              drop (if j = 0 then 0 else Suc (idxs ! (j - 1))) (take (Suc (idxs ! j)) page) \<and>
            sections page (- 1) idxs ! j \<noteq> [] \<and>
            last (sections page (- 1) idxs ! j) = page ! (idxs ! j) \<and>
            str_in ''Final Action Date'' (last (sections page (- 1) idxs ! j))) \<and>
         (parse_text_data st (take i pages) = Inr st1 \<and>
          parse_text_data st (take (Suc i) pages) = Inr st2 \<longrightarrow>
            length (document_name st2) = length (document_name st1) + length idxs) \<and>
         (parse_text_data st pages = Inr st' \<longrightarrow>
            length (document_name st') =
              length (document_name st) +
              sum_list (map (\<lambda>(k, t). length (final_action_indices (page_lines k t)))
                          (enumerate 0 pages)))"
proof -
  note sh = page_segments_shape [OF ls page idxs]
  have c1: "page = (if i = 0 then drop 11 (take (length ls - 2) ls) else take (length ls - 2) ls)"
    using sh by (rule conjunct1)
  have c2: "idxs = filter (\<lambda>p. str_in ''Final Action Date'' (page ! p)) [0..<length page]"
    using sh [THEN conjunct2] by (rule conjunct1)
  have pp: "parse_page s i (pages ! i) =
           process_segments (check_website s page) (sections page (- 1) idxs)" for s
    unfolding idxs page by (rule parse_page_as_segments)
  have tk: "take (Suc i) pages = take i pages @ [pages ! i]"
    using i by (rule take_Suc_conv_app_nth)
  have li: "length (take i pages) = i" using i by simp
  have c3: "parse_text_data st (take (Suc i) pages) =
           (case parse_text_data st (take i pages) of
              Inl e \<Rightarrow> Inl e
            | Inr st1 \<Rightarrow>
                process_segments (check_website st1 page) (sections page (- 1) idxs))"
    unfolding parse_text_data_def tk parse_pages_snoc li by (simp add: pp split: sum.splits)
  have c4: "length (sections page (- 1) idxs) = length idxs"
    by (rule length_sections)
  note c5 = sh [THEN conjunct2, THEN conjunct2, THEN conjunct2, THEN conjunct2, THEN conjunct1]
  have c6: "length (document_name st2) = length (document_name st1) + length idxs"
    if a: "parse_text_data st (take i pages) = Inr st1"
      and b: "parse_text_data st (take (Suc i) pages) = Inr st2"
  proof -
    from b have "parse_page st1 i (pages ! i) = Inr st2"
      unfolding c3 a pp by simp
    from parse_page_doc_count [OF this] show ?thesis unfolding idxs page .
  qed
  have c7: "length (document_name st') =
              length (document_name st) +
              sum_list (map (\<lambda>(k, t). length (final_action_indices (page_lines k t)))
                          (enumerate 0 pages))"
    if "parse_text_data st pages = Inr st'"
    using that unfolding parse_text_data_def by (rule parse_pages_doc_count)
  from c1 c2 c3 c4 c5 c6 c7 show ?thesis by blast
qed

theorem parse_text_data_segments_witness:
  "0 < length [example_two_names_page, example_page] \<and>
   page_lines 0 ([example_two_names_page, example_page] ! 0) =
     drop 11 (take (length (split_sep [CHR 0x0A] ([example_two_names_page, example_page] ! 0)) - 2)
                (split_sep [CHR 0x0A] ([example_two_names_page, example_page] ! 0))) \<and>
   length (split_sep [CHR 0x0A] ([example_two_names_page, example_page] ! 0)) = 18 \<and>
   page_lines 0 ([example_two_names_page, example_page] ! 0) =
     [''ACME (Acme Corp)'', ''BETA (Beta Corp)'', ''a | w: www.acme.org'',
      ''ANSI X1-2020, Title one'', ''x | Final Action Date: 1/1/2020''] \<and>
   final_action_indices (page_lines 0 ([example_two_names_page, example_page] ! 0)) = [4] \<and>
   sections (page_lines 0 ([example_two_names_page, example_page] ! 0)) (- 1)
     (final_action_indices (page_lines 0 ([example_two_names_page, example_page] ! 0))) =
     [[''ACME (Acme Corp)'', ''BETA (Beta Corp)'', ''a | w: www.acme.org'',
       ''ANSI X1-2020, Title one'', ''x | Final Action Date: 1/1/2020'']] \<and>
   last (sections (page_lines 0 ([example_two_names_page, example_page] ! 0)) (- 1)
           (final_action_indices (page_lines 0 ([example_two_names_page, example_page] ! 0))) ! 0) =
     page_lines 0 ([example_two_names_page, example_page] ! 0) !
       (final_action_indices (page_lines 0 ([example_two_names_page, example_page] ! 0)) ! 0) \<and>
   parse_text_data (init_extractor [] []) (take (Suc 0) [example_two_names_page, example_page]) =
     (case parse_text_data (init_extractor [] []) (take 0 [example_two_names_page, example_page]) of
        Inl e \<Rightarrow> Inl e
      | Inr st1 \<Rightarrow>
          process_segments
            (check_website st1 (page_lines 0 ([example_two_names_page, example_page] ! 0)))
            (sections (page_lines 0 ([example_two_names_page, example_page] ! 0)) (- 1)
               (final_action_indices
                  (page_lines 0 ([example_two_names_page, example_page] ! 0))))) \<and>
   parse_text_data (init_extractor [] []) [example_two_names_page, example_page] =
     Inr \<lparr>pdf_path = [], output_path = [],
          operating_name = [''ACME'', ''BETA'', ''ACME''],
          legal_name = [''(Acme, Corp)'', ''(Beta, Corp)'', ''(Acme, Corp)''],
          website = [''www.acme.org'', ''www.acme.org'', ''www.acme.org''],
          document_name = [''ANSI X1-2020'', ''ANSI X1-2020'', ''ANSI X2-2021''],
          standard_title = [''Title one'', ''Title one'', ''Title two''],
          publishing_date = [''1/1/2020'', ''1/1/2020'', ''2/2/2021'']\<rparr> \<and>
   length (document_name \<lparr>pdf_path = [], output_path = [],
          operating_name = [''ACME'', ''BETA'', ''ACME''],
          legal_name = [''(Acme, Corp)'', ''(Beta, Corp)'', ''(Acme, Corp)''],
          website = [''www.acme.org'', ''www.acme.org'', ''www.acme.org''],
          document_name = [''ANSI X1-2020'', ''ANSI X1-2020'', ''ANSI X2-2021''],
          standard_title = [''Title one'', ''Title one'', ''Title two''],
          publishing_date = [''1/1/2020'', ''1/1/2020'', ''2/2/2021'']\<rparr>) =
     length (document_name (init_extractor [] [])) +
     sum_list (map (\<lambda>(k, t). length (final_action_indices (page_lines k t)))
                 (enumerate 0 [example_two_names_page, example_page])) \<and>
   sum_list (map (\<lambda>(k, t). length (final_action_indices (page_lines k t)))
               (enumerate 0 [example_two_names_page, example_page])) = 3"
proof -
  have i: "0 < length [example_two_names_page, example_page]" by simp
  note t = parse_text_data_segments
    [where pages = "[example_two_names_page, example_page]" and i = 0 and
       st = "init_extractor [] []" and
       st' = "\<lparr>pdf_path = [], output_path = [],
          operating_name = [''ACME'', ''BETA'', ''ACME''],
          legal_name = [''(Acme, Corp)'', ''(Beta, Corp)'', ''(Acme, Corp)''],
          website = [''www.acme.org'', ''www.acme.org'', ''www.acme.org''],
          document_name = [''ANSI X1-2020'', ''ANSI X1-2020'', ''ANSI X2-2021''],
          standard_title = [''Title one'', ''Title one'', ''Title two''],
          publishing_date = [''1/1/2020'', ''1/1/2020'', ''2/2/2021'']\<rparr>",
     OF i refl refl refl]
  have c1: "page_lines 0 ([example_two_names_page, example_page] ! 0) =
     drop 11 (take (length (split_sep [CHR 0x0A] ([example_two_names_page, example_page] ! 0)) - 2)
                (split_sep [CHR 0x0A] ([example_two_names_page, example_page] ! 0)))"
    using t [THEN conjunct1] by (simp only: simp_thms if_True)
  note c3 = t [THEN conjunct2, THEN conjunct2, THEN conjunct1]
  note c5 = t [THEN conjunct2, THEN conjunct2, THEN conjunct2, THEN conjunct2, THEN conjunct1]
  note c7 = t [THEN conjunct2, THEN conjunct2, THEN conjunct2, THEN conjunct2, THEN conjunct2,
               THEN conjunct2]
  have n: "length (split_sep [CHR 0x0A] ([example_two_names_page, example_page] ! 0)) = 18"
    by code_simp
  have p: "page_lines 0 ([example_two_names_page, example_page] ! 0) =
     [''ACME (Acme Corp)'', ''BETA (Beta Corp)'', ''a | w: www.acme.org'',
      ''ANSI X1-2020, Title one'', ''x | Final Action Date: 1/1/2020'']" by code_simp
  have a: "final_action_indices (page_lines 0 ([example_two_names_page, example_page] ! 0)) = [4]"
    by code_simp
  have s: "sections (page_lines 0 ([example_two_names_page, example_page] ! 0)) (- 1)
     (final_action_indices (page_lines 0 ([example_two_names_page, example_page] ! 0))) =
     [[''ACME (Acme Corp)'', ''BETA (Beta Corp)'', ''a | w: www.acme.org'',
       ''ANSI X1-2020, Title one'', ''x | Final Action Date: 1/1/2020'']]" by code_simp
  have j: "0 < length (final_action_indices
      (page_lines 0 ([example_two_names_page, example_page] ! 0)))"
    unfolding a by simp
  note l = c5 [rule_format, OF j, THEN conjunct2, THEN conjunct2, THEN conjunct2, THEN conjunct1]
  have r: "parse_text_data (init_extractor [] []) [example_two_names_page, example_page] =
     Inr \<lparr>pdf_path = [], output_path = [],
          operating_name = [''ACME'', ''BETA'', ''ACME''],
          legal_name = [''(Acme, Corp)'', ''(Beta, Corp)'', ''(Acme, Corp)''],
          website = [''www.acme.org'', ''www.acme.org'', ''www.acme.org''],
          document_name = [''ANSI X1-2020'', ''ANSI X1-2020'', ''ANSI X2-2021''],
          standard_title = [''Title one'', ''Title one'', ''Title two''],
          publishing_date = [''1/1/2020'', ''1/1/2020'', ''2/2/2021'']\<rparr>" by code_simp
  note d = c7 [THEN mp, OF r]
  have k: "sum_list (map (\<lambda>(k, t). length (final_action_indices (page_lines k t)))
               (enumerate 0 [example_two_names_page, example_page])) = 3" by code_simp
  from i c1 n p a s l c3 r d k show ?thesis by (intro conjI)
qed

text \<open>
  C2 (as amended). When no kept line of a page contains \<open>"Final Action Date"\<close>, processing
  the page raises nothing and appends nothing to the Operating Name, Legal Name, Document
  Name, Standard Title and Publishing Date lists; the Website list receives the single
  entry \<open>"Nil"\<close> when no kept line contains \<open>"w: "\<close>, and is unchanged otherwise.
\<close>

theorem parse_page_no_marker:
  assumes "list_all (\<lambda>l. \<not> str_in ''Final Action Date'' l) (page_lines i page_text)"
  shows "parse_page st i page_text =
           Inr (if list_ex (str_in ''w: '') (page_lines i page_text) then st
                else st\<lparr>website := website st @ [''Nil'']\<rparr>)"
proof -
  have "final_action_indices (page_lines i page_text) = []"
    using assms by (simp only: final_action_indices_Nil)
  moreover have "(filter (str_in ''w: '') (page_lines i page_text) = []) =
      (\<not> list_ex (str_in ''w: '') (page_lines i page_text))"
    by (simp add: filter_empty_conv list_ex_iff)
  ultimately show ?thesis
    by (simp add: parse_page_def Let_def check_website_def)
qed

theorem parse_page_no_marker_witness:
  "list_all (\<lambda>l. \<not> str_in ''Final Action Date'' l)
     (page_lines 1 (''Contact | w: www.ansi.org'' @ [CHR 0x0A] @ ''footer 1'' @ [CHR 0x0A] @ ''footer 2'')) \<and>
   parse_page (init_extractor [] []) 1
     (''Contact | w: www.ansi.org'' @ [CHR 0x0A] @ ''footer 1'' @ [CHR 0x0A] @ ''footer 2'') =
     Inr (init_extractor [] [])"
proof -
  have a: "list_all (\<lambda>l. \<not> str_in ''Final Action Date'' l)
     (page_lines 1 (''Contact | w: www.ansi.org'' @ [CHR 0x0A] @ ''footer 1'' @ [CHR 0x0A] @ ''footer 2''))"
    by code_simp
  have b: "list_ex (str_in ''w: '')
     (page_lines 1 (''Contact | w: www.ansi.org'' @ [CHR 0x0A] @ ''footer 1'' @ [CHR 0x0A] @ ''footer 2''))"
    by code_simp
  have "parse_page (init_extractor [] []) 1
     (''Contact | w: www.ansi.org'' @ [CHR 0x0A] @ ''footer 1'' @ [CHR 0x0A] @ ''footer 2'') =
     Inr (init_extractor [] [])"
    unfolding parse_page_no_marker [OF a, of "init_extractor [] []"] using b by (simp only: if_True)
  with a show ?thesis by (rule conjI)
qed

theorem parse_page_no_marker_counterexample:
  "final_action_indices
     (page_lines 1 (''Standards Action'' @ [CHR 0x0A] @ ''footer 1'' @ [CHR 0x0A] @ ''footer 2'')) = [] \<and>
   parse_page (init_extractor [] []) 1
     (''Standards Action'' @ [CHR 0x0A] @ ''footer 1'' @ [CHR 0x0A] @ ''footer 2'') =
     Inr ((init_extractor [] [])\<lparr>website := [''Nil'']\<rparr>) \<and>
   website ((init_extractor [] [])\<lparr>website := [''Nil'']\<rparr>) \<noteq> website (init_extractor [] [])"
  by code_simp

section \<open>A segment without a document line (claim C9)\<close>

lemma parse_pages_error:
  "parse_pages st k pages = Inl e \<Longrightarrow> e = IndexError \<or> e = UnboundLocalError"
proof (induction pages arbitrary: st k)
  case Nil
  then show ?case by simp
next
  case (Cons t pages)
  show ?case
  proof (cases "parse_page st k t")
    case (Inl e')
    with Cons.prems have "e' = e" by simp
    with Inl process_segments_error show ?thesis
      unfolding parse_page_as_segments by blast
  next
    case (Inr st1)
    with Cons.prems have "parse_pages st1 (Suc k) pages = Inl e" by simp
    then show ?thesis by (rule Cons.IH)
  qed
qed

text \<open>
  C9. On a segment with no line that both starts with \<open>"ANSI"\<close> or \<open>"INCITS"\<close> and
  contains a comma, the document-info step raises: the local variable \<open>index\<close> is never
  bound (\<open>UnboundLocalError\<close>). Nothing catches it: a run over pages one of whose segments
  is such a segment ends in an exception (this one, or an \<open>IndexError\<close> raised before
  the segment's document-info step is reached), and \<open>process\<close> writes no file.
\<close>

theorem missing_doc_line_is_fatal:
  assumes "list_all (\<lambda>l. \<not> doc_line l) seg"
  shows "extract_document_info st seg = Inl UnboundLocalError \<and>
         (i < length pages \<and>
          seg \<in> set (sections (page_lines i (pages ! i)) (- 1)
                       (final_action_indices (page_lines i (pages ! i)))) \<longrightarrow>
            (\<exists>e. parse_text_data st0 pages = Inl e \<and>
                 (e = IndexError \<or> e = UnboundLocalError) \<and>
                 (extract_pdf_text w st0 = Inr pages \<longrightarrow>
                    process w st0 output_filename = (Inl e, None))))"
proof -
  have a: "extract_document_info st seg = Inl UnboundLocalError"
    using assms by (rule extract_document_info_no_doc_line)
  have b: "\<exists>e. parse_text_data st0 pages = Inl e \<and>
                 (e = IndexError \<or> e = UnboundLocalError) \<and>
                 (extract_pdf_text w st0 = Inr pages \<longrightarrow>
                    process w st0 output_filename = (Inl e, None))"
    if i: "i < length pages"
      and m: "seg \<in> set (sections (page_lines i (pages ! i)) (- 1)
                       (final_action_indices (page_lines i (pages ! i))))"
  proof -
    from parse_pages_no_doc_line [of i pages seg 0 st0] i m assms
    obtain e where e: "parse_text_data st0 pages = Inl e"
      unfolding parse_text_data_def by auto
    then have "e = IndexError \<or> e = UnboundLocalError"
      unfolding parse_text_data_def by (rule parse_pages_error)
    moreover have "process w st0 output_filename = (Inl e, None)"
      if "extract_pdf_text w st0 = Inr pages"
      using that e by (simp add: process_def)
    ultimately show ?thesis using e by blast
  qed
  from a b show ?thesis by blast
qed


theorem missing_doc_line_is_fatal_witness:
  "list_all (\<lambda>l. \<not> doc_line l)
     [''ACME (Acme Corp)'', ''a | w: www.acme.org'', ''A title without the prefix'',
      ''x | Final Action Date: 1/1/2020''] \<and>
   extract_document_info (init_extractor ''in.pdf'' ''out'')
     [''ACME (Acme Corp)'', ''a | w: www.acme.org'', ''A title without the prefix'',
      ''x | Final Action Date: 1/1/2020''] = Inl UnboundLocalError \<and>
   0 < length [example_first_page] \<and>
   [''ACME (Acme Corp)'', ''a | w: www.acme.org'', ''A title without the prefix'',
      ''x | Final Action Date: 1/1/2020'']
     \<in> set (sections (page_lines 0 ([example_first_page] ! 0)) (- 1)
              (final_action_indices (page_lines 0 ([example_first_page] ! 0)))) \<and>
   (\<exists>e. parse_text_data (init_extractor ''in.pdf'' ''out'') [example_first_page] = Inl e \<and>
        (e = IndexError \<or> e = UnboundLocalError)) \<and>
   process \<lparr>files = (\<lambda>p. if p = ''in.pdf'' then Readable [example_first_page] else Absent),
           pdf_reader = (\<lambda>f. Inr f), page_extract_text = (\<lambda>p. Inr p),
           path_join = (\<lambda>a b. a @ ''/'' @ b), to_excel = (\<lambda>p. None)\<rparr>
       (init_extractor ''in.pdf'' ''out'') ''ANSI_Extracted.xlsx'' =
     (Inl UnboundLocalError, None)"
proof -
  have a: "list_all (\<lambda>l. \<not> doc_line l)
     [''ACME (Acme Corp)'', ''a | w: www.acme.org'', ''A title without the prefix'',
      ''x | Final Action Date: 1/1/2020'']" by code_simp
  note t = missing_doc_line_is_fatal
    [OF a, where st = "init_extractor ''in.pdf'' ''out''" and i = 0 and
       pages = "[example_first_page]" and st0 = "init_extractor ''in.pdf'' ''out''"]
  have i: "0 < length [example_first_page]" by simp
  have m: "[''ACME (Acme Corp)'', ''a | w: www.acme.org'', ''A title without the prefix'',
      ''x | Final Action Date: 1/1/2020'']
     \<in> set (sections (page_lines 0 ([example_first_page] ! 0)) (- 1)
              (final_action_indices (page_lines 0 ([example_first_page] ! 0))))"
    by code_simp
  from t [THEN conjunct2, THEN mp, OF conjI [OF i m]]
  have r: "\<exists>e. parse_text_data (init_extractor ''in.pdf'' ''out'') [example_first_page] = Inl e \<and>
        (e = IndexError \<or> e = UnboundLocalError)"
    by blast
  have p: "process \<lparr>files = (\<lambda>p. if p = ''in.pdf'' then Readable [example_first_page] else Absent),
           pdf_reader = (\<lambda>f. Inr f), page_extract_text = (\<lambda>p. Inr p),
           path_join = (\<lambda>a b. a @ ''/'' @ b), to_excel = (\<lambda>p. None)\<rparr>
       (init_extractor ''in.pdf'' ''out'') ''ANSI_Extracted.xlsx'' =
     (Inl UnboundLocalError, None)" by code_simp
  from a t [THEN conjunct1] i m r p show ?thesis by (intro conjI)
qed

section \<open>Reading the document (claim C8)\<close>

lemma extract_pages_ok:
  "map (page_extract_text w) pages = map Inr texts \<Longrightarrow>
   extract_pages w acc pages = Inr (acc @ texts)"
proof (induction pages arbitrary: acc texts)
  case Nil
  then show ?case by simp
next
  case (Cons pg pages)
  then obtain t ts where "texts = t # ts" "page_extract_text w pg = Inr t"
    "map (page_extract_text w) pages = map Inr ts"
    by (cases texts) auto
  with Cons.IH [of ts "acc @ [t]"] show ?case by simp
qed

lemma extract_pages_fail:
  "map (page_extract_text w) ps1 = map Inr ts \<Longrightarrow> page_extract_text w pg = Inl r \<Longrightarrow>
   extract_pages w acc (ps1 @ pg # ps2) = Inl r"
proof (induction ps1 arbitrary: acc ts)
  case Nil
  then show ?case by simp
next
  case (Cons p ps1)
  then obtain t ts' where "ts = t # ts'" "page_extract_text w p = Inr t"
    "map (page_extract_text w) ps1 = map Inr ts'"
    by (cases ts) auto
  with Cons.IH [of ts' "acc @ [t]"] Cons.prems(2) show ?case by simp
qed

text \<open>
  C8. \<open>extract_pdf_text\<close> raises \<open>FileNotFoundError\<close> with the message
  \<open>"PDF file not found: "\<close> followed by the input path when the path does not exist.
  Any other failure while reading (the file cannot be opened, the PDF reader fails, the
  text of some page cannot be extracted) is re-raised as a generic \<open>Exception\<close> whose
  message is \<open>"Error reading PDF: "\<close> followed by the text of the original failure. On
  success the result is the list of page texts in page order; the extractor object is
  not touched (the function only returns a value).
\<close>

theorem extract_pdf_text_outcomes:
  "(files w (pdf_path st) = Absent \<longrightarrow>
      extract_pdf_text w st = Inl (FileNotFoundError (''PDF file not found: '' @ pdf_path st))) \<and>
   (files w (pdf_path st) = Unreadable m \<longrightarrow>
      extract_pdf_text w st = Inl (GenericException (''Error reading PDF: '' @ m))) \<and>
   (files w (pdf_path st) = Readable f \<and> pdf_reader w f = Inl (RaisedOther m) \<longrightarrow>
      extract_pdf_text w st = Inl (GenericException (''Error reading PDF: '' @ m))) \<and>
   (files w (pdf_path st) = Readable f \<and> pdf_reader w f = Inr (ps1 @ pg # ps2) \<and>
    map (page_extract_text w) ps1 = map Inr ts \<and> page_extract_text w pg = Inl (RaisedOther m) \<longrightarrow>
      extract_pdf_text w st = Inl (GenericException (''Error reading PDF: '' @ m))) \<and>
   (extract_pdf_text_body w (pdf_path st) = Inl (RaisedOther m) \<longrightarrow>
      extract_pdf_text w st = Inl (GenericException (''Error reading PDF: '' @ m))) \<and>
   (files w (pdf_path st) = Readable f \<and> pdf_reader w f = Inr pages \<and>
    map (page_extract_text w) pages = map Inr texts \<longrightarrow>
      extract_pdf_text w st = Inr texts)"
proof -
  have 1: "extract_pdf_text w st = Inl (FileNotFoundError (''PDF file not found: '' @ pdf_path st))"
    if "files w (pdf_path st) = Absent"
    using that by (simp add: extract_pdf_text_def extract_pdf_text_body_def py_open_def)
  have 2: "extract_pdf_text w st = Inl (GenericException (''Error reading PDF: '' @ m))"
    if "files w (pdf_path st) = Unreadable m"
    using that by (simp add: extract_pdf_text_def extract_pdf_text_body_def py_open_def)
  have 3: "extract_pdf_text w st = Inl (GenericException (''Error reading PDF: '' @ m))"
    if "files w (pdf_path st) = Readable f" "pdf_reader w f = Inl (RaisedOther m)"
    using that by (simp add: extract_pdf_text_def extract_pdf_text_body_def py_open_def)
  have 4: "extract_pdf_text w st = Inl (GenericException (''Error reading PDF: '' @ m))"
    if "files w (pdf_path st) = Readable f" "pdf_reader w f = Inr (ps1 @ pg # ps2)"
      "map (page_extract_text w) ps1 = map Inr ts" "page_extract_text w pg = Inl (RaisedOther m)"
    using that extract_pages_fail [OF that(3) that(4), of "[]" ps2]
    by (simp add: extract_pdf_text_def extract_pdf_text_body_def py_open_def)
  have 5: "extract_pdf_text w st = Inl (GenericException (''Error reading PDF: '' @ m))"
    if "extract_pdf_text_body w (pdf_path st) = Inl (RaisedOther m)"
    using that by (simp add: extract_pdf_text_def)
  have 6: "extract_pdf_text w st = Inr texts"
    if "files w (pdf_path st) = Readable f" "pdf_reader w f = Inr pages"
      "map (page_extract_text w) pages = map Inr texts"
    using that extract_pages_ok [OF that(3), of "[]"]
    by (simp add: extract_pdf_text_def extract_pdf_text_body_def py_open_def)
  from 1 2 3 4 5 6 show ?thesis by blast
qed

theorem extract_pdf_text_outcomes_witness:
  "files example_world (pdf_path (init_extractor ''missing.pdf'' ''out'')) = Absent \<and>
   extract_pdf_text example_world (init_extractor ''missing.pdf'' ''out'') =
     Inl (FileNotFoundError ''PDF file not found: missing.pdf'') \<and>
   files example_world (pdf_path (init_extractor ''locked.pdf'' ''out'')) =
     Unreadable ''Permission denied'' \<and>
   extract_pdf_text example_world (init_extractor ''locked.pdf'' ''out'') =
     Inl (GenericException ''Error reading PDF: Permission denied'') \<and>
   extract_pdf_text example_world (init_extractor ''broken.pdf'' ''out'') =
     Inl (GenericException ''Error reading PDF: cannot decode'') \<and>
   extract_pdf_text example_world (init_extractor ''in.pdf'' ''out'') =
     Inr [''page one'', ''page two'']"
proof -
  have a: "files example_world (pdf_path (init_extractor ''missing.pdf'' ''out'')) = Absent"
    by (simp add: example_world_def init_extractor_def)
  from extract_pdf_text_outcomes
    [where w = example_world and st = "init_extractor ''missing.pdf'' ''out''",
     THEN conjunct1, THEN mp, OF a]
  have b: "extract_pdf_text example_world (init_extractor ''missing.pdf'' ''out'') =
     Inl (FileNotFoundError ''PDF file not found: missing.pdf'')"
    by (simp add: init_extractor_def)
  have c: "files example_world (pdf_path (init_extractor ''locked.pdf'' ''out'')) =
     Unreadable ''Permission denied''"
    by (simp add: example_world_def init_extractor_def)
  from extract_pdf_text_outcomes
    [where w = example_world and st = "init_extractor ''locked.pdf'' ''out''",
     THEN conjunct2, THEN conjunct1, THEN mp, OF c]
  have d: "extract_pdf_text example_world (init_extractor ''locked.pdf'' ''out'') =
     Inl (GenericException ''Error reading PDF: Permission denied'')"
    by simp
  have e1: "files example_world (pdf_path (init_extractor ''broken.pdf'' ''out'')) =
     Readable [''page one'', ''bad'', ''page three'']"
    by (simp add: example_world_def init_extractor_def)
  have e2: "pdf_reader example_world [''page one'', ''bad'', ''page three''] =
     Inr ([''page one''] @ ''bad'' # [''page three''])"
    by (simp add: example_world_def)
  have e3: "map (page_extract_text example_world) [''page one''] = map Inr [''page one'']"
    by (simp add: example_world_def)
  have e4: "page_extract_text example_world ''bad'' = Inl (RaisedOther ''cannot decode'')"
    by (simp add: example_world_def)
  from extract_pdf_text_outcomes
    [where w = example_world and st = "init_extractor ''broken.pdf'' ''out''",
     THEN conjunct2, THEN conjunct2, THEN conjunct2, THEN conjunct1, THEN mp,
     OF conjI [OF e1 conjI [OF e2 conjI [OF e3 e4]]]]
  have e: "extract_pdf_text example_world (init_extractor ''broken.pdf'' ''out'') =
     Inl (GenericException ''Error reading PDF: cannot decode'')"
    by simp
  have f1: "files example_world (pdf_path (init_extractor ''in.pdf'' ''out'')) =
     Readable [''page one'', ''page two'']"
    by (simp add: example_world_def init_extractor_def)
  have f2: "pdf_reader example_world [''page one'', ''page two''] = Inr [''page one'', ''page two'']"
    by (simp add: example_world_def)
  have f3: "map (page_extract_text example_world) [''page one'', ''page two''] =
     map Inr [''page one'', ''page two'']"
    by (simp add: example_world_def)
  from extract_pdf_text_outcomes
    [where w = example_world and st = "init_extractor ''in.pdf'' ''out''",
     THEN conjunct2, THEN conjunct2, THEN conjunct2, THEN conjunct2, THEN conjunct2, THEN mp,
     OF conjI [OF f1 conjI [OF f2 f3]]]
  have f: "extract_pdf_text example_world (init_extractor ''in.pdf'' ''out'') =
     Inr [''page one'', ''page two'']" .
  from a b c d e f show ?thesis by (intro conjI)
qed

section \<open>Splitting at separators\<close>

lemma str_in_iff: "str_in sub s \<longleftrightarrow> (\<exists>p q. s = p @ sub @ q)"
proof (induction s)
  case Nil
  then show ?case by auto
next
  case (Cons c cs)
  show ?case
  proof
    assume "str_in sub (c # cs)"
    then consider "prefix sub (c # cs)" | "str_in sub cs" by auto
    then show "\<exists>p q. c # cs = p @ sub @ q"
    proof cases
      case 1
      then obtain q where "c # cs = sub @ q" by (auto simp: prefix_def)
      then have "c # cs = [] @ sub @ q" by simp
      then show ?thesis by blast
    next
      case 2
      then obtain p q where "cs = p @ sub @ q" using Cons.IH by blast
      then have "c # cs = (c # p) @ sub @ q" by simp
      then show ?thesis by blast
    qed
  next
    assume "\<exists>p q. c # cs = p @ sub @ q"
    then obtain p q where e: "c # cs = p @ sub @ q" by blast
    show "str_in sub (c # cs)"
    proof (cases p)
      case Nil
      with e have "prefix sub (c # cs)" by (simp add: prefix_def)
      then show ?thesis by simp
    next
      case (Cons a p')
      with e have "cs = p' @ sub @ q" by simp
      then have "str_in sub cs" using Cons.IH by blast
      then show ?thesis by simp
    qed
  qed
qed

lemma str_in_append: "str_in sub (p @ sub @ q)"
  unfolding str_in_iff by blast

lemma split_sep_no_occurrence: "\<not> str_in sep s \<Longrightarrow> split_sep sep s = [s]"
  by (induction s) auto

lemma split_sep_first:
  assumes "sep \<noteq> []" and "hd sep \<notin> set (tl sep)" and "\<not> str_in sep P"
  shows "split_sep sep (P @ sep @ R) = P # split_sep sep R"
  using assms(3)
proof (induction P)
  case Nil
  obtain c cs where sep: "sep = c # cs" using assms(1) by (cases sep) auto
  have "split_sep sep ((c # cs) @ R) = [] # split_sep sep (drop (length sep) ((c # cs) @ R))"
    using sep by simp
  then show ?case using sep by simp
next
  case (Cons x P)
  from Cons.prems have np: "\<not> prefix sep (x # P)" and ni: "\<not> str_in sep P" by auto
  have "\<not> prefix sep ((x # P) @ sep @ R)"
  proof
    assume pr: "prefix sep ((x # P) @ sep @ R)"
    show False
    proof (cases "length sep \<le> length (x # P)")
      case True
      with pr have "prefix sep (x # P)"
        unfolding prefix_append [of sep "x # P" "sep @ R"] by auto
      with np show False by blast
    next
      case False
      then have lt: "length (x # P) < length sep" by simp
      from pr obtain zs where z: "(x # P) @ sep @ R = sep @ zs" by (auto simp: prefix_def)
      have "sep ! length (x # P) = (sep @ zs) ! length (x # P)"
        using lt by (simp add: nth_append)
      also have "\<dots> = ((x # P) @ sep @ R) ! length (x # P)" using z by simp
      also have "\<dots> = (sep @ R) ! 0"
        using nth_append_length_plus [of "x # P" "sep @ R" 0] by simp
      also have "\<dots> = hd sep" using assms(1) by (cases sep) auto
      finally have h: "sep ! length (x # P) = hd sep" .
      have "sep ! length (x # P) = tl sep ! length P"
        using assms(1) by (cases sep) auto
      moreover have "length P < length (tl sep)" using lt by simp
      ultimately have "sep ! length (x # P) \<in> set (tl sep)" by (metis nth_mem)
      with h assms(2) show False by simp
    qed
  qed
  then have "split_sep sep ((x # P) @ sep @ R) =
      (case split_sep sep (P @ sep @ R) of [] \<Rightarrow> [[x]] | w # ws \<Rightarrow> (x # w) # ws)"
    by simp
  also have "\<dots> = (x # P) # split_sep sep R"
    using Cons.IH [OF ni] by simp
  finally show ?case .
qed

lemma split_sep_char_append:
  "split_sep [c] (A @ c # R) = split_sep [c] A @ split_sep [c] R"
proof (induction A)
  case Nil
  then show ?case by simp
next
  case (Cons a A)
  obtain w ws where w: "split_sep [c] A = w # ws"
    using split_sep_not_Nil [of "[c]" A] by (cases "split_sep [c] A") auto
  show ?case
  proof (cases "a = c")
    case True
    then show ?thesis using Cons.IH by simp
  next
    case False
    then show ?thesis using Cons.IH w by simp
  qed
qed

lemma split_sep_char_none: "c \<notin> set s \<Longrightarrow> split_sep [c] s = [s]"
proof (rule split_sep_no_occurrence)
  assume "c \<notin> set s"
  then show "\<not> str_in [c] s" unfolding str_in_iff by auto
qed

lemma publishing_date_loop_skip:
  "list_all (\<lambda>f. \<not> str_in ''Final Action Date'' f) fs \<Longrightarrow>
   publishing_date_loop st (fs @ rest) = publishing_date_loop st rest"
  by (induction fs) auto

lemma py_isspace_space: "py_isspace CHR '' ''"
  by code_simp

lemma strip_trailing_space: "strip (D @ '' '') = strip D"
proof (cases "\<forall>c\<in>set D. py_isspace c")
  case True
  then have a: "dropWhile py_isspace (D @ '' '') = []" and b: "dropWhile py_isspace D = []"
    using py_isspace_space by simp_all
  show ?thesis unfolding strip_def a b by simp
next
  case False
  then obtain c where "c \<in> set D" "\<not> py_isspace c" by blast
  then have "dropWhile py_isspace (D @ '' '') = dropWhile py_isspace D @ '' ''"
    by (rule dropWhile_append1)
  then show ?thesis using py_isspace_space by (simp add: strip_def)
qed

section \<open>Publishing date (claim C5)\<close>

lemma marker_field_split:
  assumes "\<not> str_in ''Final Action Date: '' (D @ '' '')"
  shows "split_sep ''Final Action Date: '' ('' Final Action Date: '' @ D @ '' '') =
         ['' '', D @ '' '']"
proof -
  have a: "''Final Action Date: '' \<noteq> []" by simp
  have b: "hd ''Final Action Date: '' \<notin> set (tl ''Final Action Date: '')" by simp
  have c: "\<not> str_in ''Final Action Date: '' '' ''" by code_simp
  have "'' Final Action Date: '' @ D @ '' '' = '' '' @ ''Final Action Date: '' @ (D @ '' '')"
    by simp
  then have "split_sep ''Final Action Date: '' ('' Final Action Date: '' @ D @ '' '') =
        '' '' # split_sep ''Final Action Date: '' (D @ '' '')"
    using split_sep_first [OF a b c, of "D @ '' ''"] by (simp only:)
  also have "\<dots> = ['' '', D @ '' '']"
    using split_sep_no_occurrence [OF assms] by (simp only:)
  finally show ?thesis .
qed

lemma marker_field_has_marker:
  "str_in ''Final Action Date'' ('' Final Action Date: '' @ D @ '' '')"
proof -
  have "'' Final Action Date: '' @ D @ '' '' = '' '' @ ''Final Action Date'' @ ('': '' @ D @ '' '')"
    by simp
  then show ?thesis using str_in_append [of "''Final Action Date''" "'' ''" "'': '' @ D @ '' ''"]
    by (simp only:)
qed

lemma py_index_second: "py_index [a, b] 1 = Inr b"
  by (simp add: py_index_def)

text \<open>
  C5 (as amended). For every segment whose last line has the form
  \<open>A | Final Action Date: D | B\<close>, where \<open>D\<close> contains no pipe character, the
  separator \<open>"Final Action Date: "\<close> does not occur a second time in that pipe-field
  (that is, in \<open>D\<close> followed by the space before the pipe), and no pipe-field of \<open>A\<close>
  or of \<open>B\<close> contains \<open>"Final Action Date"\<close>, the publishing-date step appends exactly
  the trimmed value of \<open>D\<close>.
\<close>

theorem extract_publishing_date_marker_field:
  assumes ne: "sub_list \<noteq> []"
    and line: "last sub_list = A @ ''| Final Action Date: '' @ D @ '' |'' @ B"
    and nopipe: "CHR ''|'' \<notin> set D"
    and once: "\<not> str_in ''Final Action Date: '' (D @ '' '')"
    and fa: "list_all (\<lambda>f. \<not> str_in ''Final Action Date'' f) (split_sep ''|'' A)"
    and fb: "list_all (\<lambda>f. \<not> str_in ''Final Action Date'' f) (split_sep ''|'' B)"
  shows "extract_publishing_date st sub_list =
           Inr (st\<lparr>publishing_date := publishing_date st @ [strip D]\<rparr>)"
proof -
  define X where "X = '' Final Action Date: '' @ D @ '' ''"
  have l: "last sub_list = A @ CHR ''|'' # (X @ CHR ''|'' # B)"
    unfolding line X_def by simp
  have "CHR ''|'' \<notin> set X" using nopipe unfolding X_def by simp
  then have x: "split_sep ''|'' X = [X]" by (rule split_sep_char_none)
  have fields: "split_sep ''|'' (last sub_list) = split_sep ''|'' A @ X # split_sep ''|'' B"
    unfolding l split_sep_char_append x by simp
  have m: "str_in ''Final Action Date'' X"
    unfolding X_def by (rule marker_field_has_marker)
  have s: "split_sep ''Final Action Date: '' X = ['' '', D @ '' '']"
    unfolding X_def using once by (rule marker_field_split)
  have "publishing_date_loop st (split_sep ''|'' (last sub_list)) =
        publishing_date_loop st (X # split_sep ''|'' B)"
    unfolding fields using fa by (rule publishing_date_loop_skip)
  also have "\<dots> = publishing_date_loop
        (st\<lparr>publishing_date := publishing_date st @ [strip (D @ '' '')]\<rparr>) (split_sep ''|'' B)"
    using m by (simp add: s py_index_second del: split_sep.simps str_in.simps)
  also have "\<dots> = publishing_date_loop
        (st\<lparr>publishing_date := publishing_date st @ [strip (D @ '' '')]\<rparr>) (split_sep ''|'' B @ [])"
    by simp
  also have "\<dots> = Inr (st\<lparr>publishing_date := publishing_date st @ [strip (D @ '' '')]\<rparr>)"
    unfolding publishing_date_loop_skip [OF fb] by simp
  finally show ?thesis
    using ne by (simp add: extract_publishing_date_def py_index_last strip_trailing_space
        del: split_sep.simps)
qed

theorem extract_publishing_date_marker_field_witness:
  "[''ANSI X9.24-2021, Retail Financial Services Key Management'',
    ''... | Final Action Date: 2021-05-01 | ...''] \<noteq> [] \<and>
   last [''ANSI X9.24-2021, Retail Financial Services Key Management'',
         ''... | Final Action Date: 2021-05-01 | ...''] =
     ''... '' @ ''| Final Action Date: '' @ ''2021-05-01'' @ '' |'' @ '' ...'' \<and>
   CHR ''|'' \<notin> set ''2021-05-01'' \<and>
   \<not> str_in ''Final Action Date: '' (''2021-05-01'' @ '' '') \<and>
   list_all (\<lambda>f. \<not> str_in ''Final Action Date'' f) (split_sep ''|'' ''... '') \<and>
   list_all (\<lambda>f. \<not> str_in ''Final Action Date'' f) (split_sep ''|'' '' ...'') \<and>
   extract_publishing_date (init_extractor [] [])
     [''ANSI X9.24-2021, Retail Financial Services Key Management'',
      ''... | Final Action Date: 2021-05-01 | ...''] =
     Inr ((init_extractor [] [])\<lparr>publishing_date := [''2021-05-01'']\<rparr>)"
proof -
  have ne: "[''ANSI X9.24-2021, Retail Financial Services Key Management'',
    ''... | Final Action Date: 2021-05-01 | ...''] \<noteq> []" by simp
  have line: "last [''ANSI X9.24-2021, Retail Financial Services Key Management'',
         ''... | Final Action Date: 2021-05-01 | ...''] =
     ''... '' @ ''| Final Action Date: '' @ ''2021-05-01'' @ '' |'' @ '' ...''" by simp
  have nopipe: "CHR ''|'' \<notin> set ''2021-05-01''" by simp
  have once: "\<not> str_in ''Final Action Date: '' (''2021-05-01'' @ '' '')" by code_simp
  have fa: "list_all (\<lambda>f. \<not> str_in ''Final Action Date'' f) (split_sep ''|'' ''... '')"
    by code_simp
  have fb: "list_all (\<lambda>f. \<not> str_in ''Final Action Date'' f) (split_sep ''|'' '' ...'')"
    by code_simp
  have tr: "strip ''2021-05-01'' = ''2021-05-01''" by code_simp
  have i: "publishing_date (init_extractor [] []) @ [''2021-05-01''] = [''2021-05-01'']"
    by (simp add: init_extractor_def)
  from extract_publishing_date_marker_field
    [where st = "init_extractor [] []", OF ne line nopipe once fa fb]
  have r: "extract_publishing_date (init_extractor [] [])
     [''ANSI X9.24-2021, Retail Financial Services Key Management'',
      ''... | Final Action Date: 2021-05-01 | ...''] =
     Inr ((init_extractor [] [])\<lparr>publishing_date := [''2021-05-01'']\<rparr>)"
    unfolding tr i .
  from ne line nopipe once fa fb r show ?thesis by (intro conjI)
qed

theorem extract_publishing_date_marker_field_counterexample:
  "last [''ANSI X9.24-2021, Retail Financial Services Key Management'',
         ''... | Final Action Date: Final Action Date: 1 | ...''] =
     ''... '' @ ''| Final Action Date: '' @ ''Final Action Date: 1'' @ '' |'' @ '' ...'' \<and>
   CHR ''|'' \<notin> set ''Final Action Date: 1'' \<and>
   filter (str_in ''Final Action Date'')
     (split_sep ''|'' ''... | Final Action Date: Final Action Date: 1 | ...'') =
     ['' Final Action Date: Final Action Date: 1 ''] \<and>
   strip ''Final Action Date: 1'' = ''Final Action Date: 1'' \<and>
   extract_publishing_date (init_extractor [] [])
     [''ANSI X9.24-2021, Retail Financial Services Key Management'',
      ''... | Final Action Date: Final Action Date: 1 | ...''] =
     Inr ((init_extractor [] [])\<lparr>publishing_date := ['''']\<rparr>) \<and>
   extract_publishing_date (init_extractor [] [])
     [''ANSI X9.24-2021, Retail Financial Services Key Management'',
      ''... | Final Action Date: Final Action Date: 1 | ...''] \<noteq>
     Inr ((init_extractor [] [])\<lparr>publishing_date := [''Final Action Date: 1'']\<rparr>)"
  by code_simp

section \<open>Lengths of the six lists (claim C3)\<close>

text \<open>
  What reconciliation does maintain over a run that completes: the name lists stay equal
  in length, as do the document-name and title lists, and neither the names nor the
  websites fall behind the titles. It never shortens a list that is ahead.
\<close>

lemma extract_website_grows:
  "extract_website st seg = Inr st' \<Longrightarrow> length (website st) \<le> length (website st')"
proof (induction seg arbitrary: st)
  case Nil
  then show ?case by simp
next
  case (Cons line seg)
  show ?case
  proof (cases "str_in ''w: '' line")
    case False
    with Cons show ?thesis by simp
  next
    case True
    with Cons.prems obtain f v where
      "extract_website (st\<lparr>website := website st @ [strip v]\<rparr>) seg = Inr st'"
      by (auto split: sum.splits)
    from Cons.IH [OF this] show ?thesis by simp
  qed
qed

lemma pad_names_lengths:
  assumes "pad_names st = Inr st'"
    and "length (legal_name st) = length (operating_name st)"
    and "length (standard_title st) \<le> Suc (length (operating_name st))"
  shows "length (legal_name st') = length (operating_name st') \<and>
         length (standard_title st') \<le> length (operating_name st') \<and>
         website st' = website st \<and> standard_title st' = standard_title st"
  using assms by (auto simp: pad_names_def split: if_splits sum.splits)

lemma pad_website_lengths:
  assumes "pad_website st = Inr st'"
    and "length (standard_title st) \<le> Suc (length (website st))"
  shows "length (standard_title st') \<le> length (website st') \<and>
         operating_name st' = operating_name st \<and> legal_name st' = legal_name st \<and>
         standard_title st' = standard_title st"
  using assms by (auto simp: pad_website_def split: if_splits sum.splits)

lemma process_segment_lengths:
  assumes p: "process_segment st seg = Inr st'"
    and i1: "length (legal_name st) = length (operating_name st)"
    and i2: "length (standard_title st) \<le> length (operating_name st)"
    and i3: "length (standard_title st) \<le> length (website st)"
  shows "length (legal_name st') = length (operating_name st') \<and>
         length (standard_title st') \<le> length (operating_name st') \<and>
         length (standard_title st') \<le> length (website st')"
proof -
  from p obtain st1 st2 st3 st4 st5 where
    a: "extract_publishing_date st seg = Inr st1" and
    b: "extract_names st1 seg = Inr st2" and
    c: "extract_website st2 seg = Inr st3" and
    d: "extract_document_info st3 seg = Inr st4" and
    e: "pad_names st4 = Inr st5" and
    f: "pad_website st5 = Inr st'"
    by (auto simp: process_segment_def ensure_data_consistency_def split: sum.splits)
  note A = extract_publishing_date_others [OF a]
  have B: "length (legal_name st2) = length (operating_name st2) \<and>
           length (operating_name st1) \<le> length (operating_name st2)"
    using b i1 A unfolding extract_names_gen [of st1 seg] by auto
  note B' = extract_names_others [OF b]
  note C = extract_website_others [OF c] extract_website_grows [OF c]
  note D = extract_document_info_titles [OF d]
  have e1: "length (legal_name st4) = length (operating_name st4)"
    using B C D by simp
  have e2: "length (standard_title st4) \<le> Suc (length (operating_name st4))"
    using A B B' C D i2 by simp
  note E = pad_names_lengths [OF e e1 e2]
  have f1: "length (standard_title st5) \<le> Suc (length (website st5))"
    using A B' C D E i3 by simp
  note F = pad_website_lengths [OF f f1]
  from E F show ?thesis by auto
qed

lemma process_segments_lengths:
  "process_segments st segs = Inr st' \<Longrightarrow>
   length (legal_name st) = length (operating_name st) \<Longrightarrow>
   length (standard_title st) \<le> length (operating_name st) \<Longrightarrow>
   length (standard_title st) \<le> length (website st) \<Longrightarrow>
   length (legal_name st') = length (operating_name st') \<and>
   length (standard_title st') \<le> length (operating_name st') \<and>
   length (standard_title st') \<le> length (website st')"
proof (induction segs arbitrary: st)
  case Nil
  then show ?case by simp
next
  case (Cons seg segs)
  from Cons.prems(1) obtain st1 where s: "process_segment st seg = Inr st1"
    and r: "process_segments st1 segs = Inr st'"
    by (auto split: sum.splits)
  from process_segment_lengths [OF s Cons.prems(2-4)] Cons.IH [OF r] show ?case by blast
qed

lemma parse_pages_lengths:
  "parse_pages st k pages = Inr st' \<Longrightarrow>
   length (legal_name st) = length (operating_name st) \<Longrightarrow>
   length (document_name st) = length (standard_title st) \<Longrightarrow>
   length (standard_title st) \<le> length (operating_name st) \<Longrightarrow>
   length (standard_title st) \<le> length (website st) \<Longrightarrow>
   length (legal_name st') = length (operating_name st') \<and>
   length (document_name st') = length (standard_title st') \<and>
   length (standard_title st') \<le> length (operating_name st') \<and>
   length (standard_title st') \<le> length (website st')"
proof (induction pages arbitrary: st k)
  case Nil
  then show ?case by simp
next
  case (Cons t pages)
  from Cons.prems(1) obtain st1 where s: "parse_page st k t = Inr st1"
    and r: "parse_pages st1 (Suc k) pages = Inr st'"
    by (auto split: sum.splits)
  define c where "c = check_website st (page_lines k t)"
  have c: "legal_name c = legal_name st" "operating_name c = operating_name st"
    "standard_title c = standard_title st" "document_name c = document_name st"
    "length (website st) \<le> length (website c)"
    by (simp_all add: c_def check_website_def)
  from s have s': "process_segments c
      (sections (page_lines k t) (- 1) (final_action_indices (page_lines k t))) = Inr st1"
    unfolding parse_page_as_segments c_def .
  have l: "length (legal_name st1) = length (operating_name st1) \<and>
        length (standard_title st1) \<le> length (operating_name st1) \<and>
        length (standard_title st1) \<le> length (website st1)"
    using process_segments_lengths [OF s'] c Cons.prems(2,4,5) by simp
  have d: "length (document_name st1) = length (standard_title st1)"
    using process_segments_doc [OF s'] c Cons.prems(3) by simp
  from Cons.IH [OF r] l d show ?case by blast
qed

lemma parse_text_data_lengths:
  assumes "parse_text_data (init_extractor p out) pages = Inr st'"
  shows "length (legal_name st') = length (operating_name st') \<and>
         length (document_name st') = length (standard_title st') \<and>
         length (standard_title st') \<le> length (operating_name st') \<and>
         length (standard_title st') \<le> length (website st')"
  using parse_pages_lengths [OF assms [unfolded parse_text_data_def]]
  by (simp add: init_extractor_def)

text \<open>
  C3. The six lists are not kept at equal length. On a one-page document whose only
  segment (one marker line) has two lines matching the name pattern, \<open>parse_text_data\<close>
  completes with two operating names and two legal names but one website, document name,
  standard title and publishing date; building the table then raises \<open>ValueError\<close>.
\<close>

theorem parse_text_data_unequal_lengths:
  "parse_text_data (init_extractor [] []) [example_two_names_page] =
     Inr \<lparr>pdf_path = [], output_path = [],
          operating_name = [''ACME'', ''BETA''],
          legal_name = [''(Acme, Corp)'', ''(Beta, Corp)''],
          website = [''www.acme.org''],
          document_name = [''ANSI X1-2020''],
          standard_title = [''Title one''],
          publishing_date = [''1/1/2020'']\<rparr> \<and>
   length (final_action_indices (page_lines 0 example_two_names_page)) = 1 \<and>
   create_dataframe
     \<lparr>pdf_path = [], output_path = [],
      operating_name = [''ACME'', ''BETA''],
      legal_name = [''(Acme, Corp)'', ''(Beta, Corp)''],
      website = [''www.acme.org''],
      document_name = [''ANSI X1-2020''],
      standard_title = [''Title one''],
      publishing_date = [''1/1/2020'']\<rparr> = Inl ValueError"
  by code_simp

end
